theory Spec2Isabelle
  imports Complex_Main "HOL-Library.AList"
begin

section \<open>Values exchanged with the matching engine\<close>

text \<open>
  The scanner is a thin layer over the external matching engine (yara-python), the file
  system (pathlib) and the JSON reader. Everything those libraries compute is a parameter
  of the model; everything \<^verbatim>\<open>yara_scanner.py\<close> itself does is a definition below.
  Paths are strings. Counters are Python integers that only grow from zero: \<open>nat\<close>.
\<close>

type_synonym path = string

text \<open>A metadata value of a rule: the engine delivers a string, an integer or a boolean.\<close>

datatype meta_value = MStr string | MInt int | MBool bool

text \<open>
  \<^verbatim>\<open>match.strings\<close>: each matched string has an identifier and its instances; an
  instance is represented by its \<^verbatim>\<open>offset\<close>.
\<close>

record string_match =
  sm_identifier :: string
  sm_instances :: "nat list"

record yara_match =
  match_rule :: string
  match_namespace :: string
  match_tags :: "string list"
  match_meta :: "(string \<times> meta_value) list"
  match_strings :: "string_match list"

text \<open>
  Exceptions. \<open>SystemExit\<close> (what \<^verbatim>\<open>sys.exit\<close> raises) and \<open>BaseExceptionOnly\<close>
  (\<^verbatim>\<open>KeyboardInterrupt\<close> and the like) are outside the \<^verbatim>\<open>Exception\<close> hierarchy:
  \<^verbatim>\<open>except Exception\<close> does not catch them.
\<close>

datatype exc =
    YaraTimeoutError
  | YaraSyntaxError string
  | YaraError string
  | AttributeError string
  | TypeError string
  | ValueError string
  | OSError string
  | JSONDecodeError string
  | OtherException string
  | SystemExit nat
  | BaseExceptionOnly string

datatype match_outcome = Returns "yara_match list" | Raises exc

text \<open>A compiled rule set is what \<^verbatim>\<open>rules.match(file_path, timeout=timeout)\<close> does.\<close>

type_synonym rules = "path \<Rightarrow> int \<Rightarrow> match_outcome"

section \<open>What the scanner builds and prints\<close>

text \<open>The entries of \<^verbatim>\<open>match_data['strings']\<close> and the dictionary \<^verbatim>\<open>match_data\<close>.\<close>

record string_data =
  sd_identifier :: string
  sd_offset :: nat

record match_data =
  md_rule :: string
  md_namespace :: string
  md_tags :: "string list"
  md_meta :: "(string \<times> meta_value) list"
  md_strings :: "string_data list"

text \<open>
  JSON values as \<^verbatim>\<open>json.load\<close> returns them; an object keeps its keys in insertion
  order, each key once.
\<close>

datatype json =
    JNull
  | JBool bool
  | JInt int
  | JFloat rat
  | JStr string
  | JArr "json list"
  | JObj "(string \<times> json) list"

text \<open>
  A per-target result dictionary: its \<^verbatim>\<open>'matches'\<close> entry, which both scanners set,
  and its other entries in insertion order.
\<close>

record result =
  r_fields :: "(string \<times> json) list"
  r_matches :: "match_data list"

record yara_results =
  totalScanned :: nat
  totalMatches :: nat
  filesWithMatches :: nat
  results :: "result list"

text \<open>One constructor for each \<^verbatim>\<open>print(..., file=sys.stderr)\<close> of the scanning functions.\<close>

datatype event =
    WarnRulesPathMissing path
  | WarnNoRules
  | LoadingRules nat
  | RuleFileLine string path
  | ErrorCompiling string
  | WarnScanTimeout path
  | WarnYaraError path string
  | WarnScanError path exc
  | ScanningHeader nat
  | WarnFileNotFound path
  | Progress nat nat
  | MatchFound path string meta_value

section \<open>\<^verbatim>\<open>scan_file\<close>\<close>

text \<open>
  The body of the inner loop: \<^verbatim>\<open>string_match.instances[0].offset if
  string_match.instances else 0\<close>.
\<close>

definition string_entry :: "string_match \<Rightarrow> string_data" where
  "string_entry sm =
     \<lparr>sd_identifier = sm_identifier sm,
      sd_offset = (case sm_instances sm of [] \<Rightarrow> 0 | off # _ \<Rightarrow> off)\<rparr>"

text \<open>
  The body of the loop over the engine's results. \<^verbatim>\<open>list(match.tags) if match.tags
  else []\<close> is the tag list itself, likewise the metadata; \<^verbatim>\<open>match.strings[:10]\<close> is
  \<open>take 10\<close>.
\<close>

definition match_data_of :: "yara_match \<Rightarrow> match_data" where
  "match_data_of m =
     \<lparr>md_rule = match_rule m,
      md_namespace = match_namespace m,
      md_tags = (if match_tags m \<noteq> [] then match_tags m else []),
      md_meta = (if match_meta m \<noteq> [] then match_meta m else []),
      md_strings = map string_entry (take 10 (match_strings m))\<rparr>"

text \<open>
  \<^verbatim>\<open>scan_file\<close> returns what it printed to stderr and its list of matches, or the
  exception that leaves it. The handlers are tried in the order of the source.
\<close>

fun is_Exception :: "exc \<Rightarrow> bool" where
  "is_Exception (BaseExceptionOnly _) = False"
| "is_Exception (SystemExit _) = False"
| "is_Exception _ = True"

definition scan_file :: "rules \<Rightarrow> path \<Rightarrow> int \<Rightarrow> exc + (event list \<times> match_data list)" where
  "scan_file rules file_path timeout =
     (case rules file_path timeout of
        Returns res \<Rightarrow> Inr ([], map match_data_of res)
      | Raises YaraTimeoutError \<Rightarrow> Inr ([WarnScanTimeout file_path], [])
      | Raises (YaraError e) \<Rightarrow> Inr ([WarnYaraError file_path e], [])
      | Raises (YaraSyntaxError e) \<Rightarrow> Inr ([WarnYaraError file_path e], [])
      | Raises e \<Rightarrow>
          (if is_Exception e then Inr ([WarnScanError file_path e], []) else Inl e))"

section \<open>The libraries as parameters\<close>

text \<open>The parsed command line (\<^verbatim>\<open>--bundled-rules\<close> is never read).\<close>

record args =
  arg_input :: "string option"
  arg_dir :: "string option"
  arg_include :: "string list"
  arg_rules :: "string list"
  arg_output :: "string option"
  arg_timeout :: int
  arg_github_annotations :: bool
  arg_no_bundled_rules :: bool

text \<open>
  Every call into a library either returns or raises. \<open>parse_args\<close> is
  \<^verbatim>\<open>parser.parse_args()\<close> on the command line (a usage error or a \<^verbatim>\<open>--timeout\<close>
  that is no integer raises \<^verbatim>\<open>SystemExit(2)\<close>); the queries \<open>path_exists\<close>,
  \<open>path_is_file\<close>, \<open>path_is_dir\<close> and the listings \<open>path_glob\<close>, \<open>path_rglob\<close>
  are the methods of \<^verbatim>\<open>pathlib.Path\<close> that read the file system (they raise
  \<^verbatim>\<open>OSError\<close> on a name that is too long or a directory that may not be read, and
  \<^verbatim>\<open>rglob\<close> raises on a pattern it refuses); \<open>path_stem\<close>, \<open>path_suffix\<close>,
  \<open>path_parent\<close> and \<open>path_join\<close> only compute on the path; \<open>json_load\<close> is
  \<^verbatim>\<open>open\<close> followed by \<^verbatim>\<open>json.load\<close>; \<open>yara_compile\<close> is
  \<^verbatim>\<open>yara.compile(filepaths=...)\<close>; \<open>open_write\<close> is the exception, if any, of
  \<^verbatim>\<open>open(args.output, 'w')\<close> and the write; \<open>print_json\<close> is the exception, if any,
  of \<^verbatim>\<open>print(output_json)\<close>; \<open>bundled_rules\<close> is
  \<^verbatim>\<open>str(Path(__file__).parent / 'rules')\<close>. The lines written to stderr and the
  annotation lines are recorded as they are printed.
\<close>

record env =
  parse_args :: "string list \<Rightarrow> exc + args"
  path_exists :: "path \<Rightarrow> exc + bool"
  path_is_file :: "path \<Rightarrow> exc + bool"
  path_is_dir :: "path \<Rightarrow> exc + bool"
  path_glob :: "path \<Rightarrow> string \<Rightarrow> exc + path list"
  path_rglob :: "path \<Rightarrow> string \<Rightarrow> exc + path list"
  path_stem :: "path \<Rightarrow> string"
  path_suffix :: "path \<Rightarrow> string"
  path_parent :: "path \<Rightarrow> path"
  path_join :: "path \<Rightarrow> string \<Rightarrow> path"
  path_relative_to :: "path \<Rightarrow> path \<Rightarrow> exc + path"
  json_load :: "path \<Rightarrow> exc + json"
  yara_compile :: "(string \<times> path) list \<Rightarrow> exc + rules"
  open_write :: "path \<Rightarrow> exc option"
  print_json :: "yara_results \<Rightarrow> exc option"
  bundled_rules :: path

section \<open>Python's dictionaries, iteration and truth values\<close>

text \<open>\<^verbatim>\<open>d.get(k, default)\<close> on a dictionary held as an association list.\<close>

definition dict_get :: "('k \<times> 'v) list \<Rightarrow> 'k \<Rightarrow> 'v \<Rightarrow> 'v" where
  "dict_get d k dflt = (case map_of d k of None \<Rightarrow> dflt | Some v \<Rightarrow> v)"

text \<open>\<^verbatim>\<open>v.get(k, default)\<close> on a JSON value: only a dictionary has the method.\<close>

fun py_get :: "json \<Rightarrow> string \<Rightarrow> json \<Rightarrow> exc + json" where
  "py_get (JObj d) k dflt = Inr (dict_get d k dflt)"
| "py_get _ k dflt = Inl (AttributeError ''get'')"

text \<open>\<^verbatim>\<open>len(v)\<close>: strings, lists and dictionaries have a length.\<close>

fun py_len :: "json \<Rightarrow> exc + nat" where
  "py_len (JStr s) = Inr (length s)"
| "py_len (JArr xs) = Inr (length xs)"
| "py_len (JObj d) = Inr (length d)"
| "py_len _ = Inl (TypeError ''len'')"

text \<open>
  \<^verbatim>\<open>for x in v\<close>: a list yields its elements, a string its characters (as strings), a
  dictionary its keys.
\<close>

fun py_iter :: "json \<Rightarrow> exc + json list" where
  "py_iter (JArr xs) = Inr xs"
| "py_iter (JStr s) = Inr (map (\<lambda>c. JStr [c]) s)"
| "py_iter (JObj d) = Inr (map (\<lambda>kv. JStr (fst kv)) d)"
| "py_iter _ = Inl (TypeError ''iter'')"

fun json_truthy :: "json \<Rightarrow> bool" where
  "json_truthy JNull = False"
| "json_truthy (JBool b) = b"
| "json_truthy (JInt i) = (i \<noteq> 0)"
| "json_truthy (JFloat q) = (q \<noteq> 0)"
| "json_truthy (JStr s) = (s \<noteq> [])"
| "json_truthy (JArr xs) = (xs \<noteq> [])"
| "json_truthy (JObj d) = (d \<noteq> [])"

fun meta_truthy :: "meta_value \<Rightarrow> bool" where
  "meta_truthy (MStr s) = (s \<noteq> [])"
| "meta_truthy (MInt i) = (i \<noteq> 0)"
| "meta_truthy (MBool b) = b"

definition startswith :: "string \<Rightarrow> string \<Rightarrow> bool" where
  "startswith s p = (take (length p) s = p)"

section \<open>The counters shared by both scanners\<close>

definition empty_results :: yara_results where
  "empty_results = \<lparr>totalScanned = 0, totalMatches = 0, filesWithMatches = 0, results = []\<rparr>"

text \<open>\<^verbatim>\<open>yara_results['totalScanned'] += 1\<close>\<close>

definition count_scanned :: "yara_results \<Rightarrow> yara_results" where
  "count_scanned yr = yr\<lparr>totalScanned := totalScanned yr + 1\<rparr>"

text \<open>The three updates under \<^verbatim>\<open>if matches:\<close>.\<close>

definition add_result :: "result \<Rightarrow> yara_results \<Rightarrow> yara_results" where
  "add_result res yr =
     yr\<lparr>totalMatches := totalMatches yr + length (r_matches res),
        filesWithMatches := filesWithMatches yr + 1,
        results := results yr @ [res]\<rparr>"

text \<open>\<^verbatim>\<open>match.get('meta', {}).get('severity', 'unknown')\<close>\<close>

definition severity_of :: "match_data \<Rightarrow> meta_value" where
  "severity_of m = dict_get (md_meta m) ''severity'' (MStr ''unknown'')"

text \<open>The lines \<^verbatim>\<open>[!] file: rule (severity: ...)\<close>, one for each match.\<close>

definition match_events :: "path \<Rightarrow> match_data list \<Rightarrow> event list" where
  "match_events shown matches = map (\<lambda>m. MatchFound shown (md_rule m) (severity_of m)) matches"

section \<open>\<^verbatim>\<open>scan_files_from_json\<close>\<close>

text \<open>
  The loop state: the report under construction, the counter \<^verbatim>\<open>scanned\<close> of the
  progress lines and what has been printed to stderr.
\<close>

record scan_state =
  report :: yara_results
  scanned :: nat
  stderr :: "event list"

text \<open>
  \<^verbatim>\<open>sum(len(pkg.get('files', [])) for pkg in packages)\<close>, over the items of
  \<^verbatim>\<open>packages\<close>.
\<close>

fun total_files :: "json list \<Rightarrow> exc + nat" where
  "total_files [] = Inr 0"
| "total_files (pkg # pkgs) =
     (case py_get pkg ''files'' (JArr []) of
        Inl e \<Rightarrow> Inl e
      | Inr fs \<Rightarrow>
          (case py_len fs of
             Inl e \<Rightarrow> Inl e
           | Inr n \<Rightarrow> (case total_files pkgs of Inl e \<Rightarrow> Inl e | Inr m \<Rightarrow> Inr (n + m))))"

text \<open>
  The path that is tested and scanned: \<^verbatim>\<open>base_path / file_path\<close> when the entry starts
  with \<^verbatim>\<open>node_modules/\<close>, else \<^verbatim>\<open>node_modules / file_path\<close>.
\<close>

definition full_path_of :: "env \<Rightarrow> path \<Rightarrow> string \<Rightarrow> path" where
  "full_path_of E base_path file_path =
     (if startswith file_path ''node_modules/'' then path_join E base_path file_path
      else path_join E (path_join E base_path ''node_modules'') file_path)"

text \<open>The dictionary \<^verbatim>\<open>result\<close> of a manifest entry with matches.\<close>

definition manifest_result ::
  "(string \<times> json) list \<Rightarrow> (string \<times> json) list \<Rightarrow> string \<Rightarrow> match_data list \<Rightarrow> result" where
  "manifest_result package executable file_path matches =
     \<lparr>r_fields =
        [(''file'', JStr file_path),
         (''package'', dict_get package ''package'' (JStr ''unknown'')),
         (''version'', dict_get package ''version'' (JStr ''unknown'')),
         (''sha256'', dict_get executable ''sha256'' (JStr [])),
         (''type'', dict_get executable ''type'' (JStr []))],
      r_matches = matches\<rparr>"

text \<open>
  The body of the inner loop, for one item \<^verbatim>\<open>executable\<close> of a package's files.
  \<^verbatim>\<open>executable.get\<close> needs a dictionary and \<^verbatim>\<open>file_path.startswith\<close> a string;
  an exception of \<^verbatim>\<open>full_path.exists()\<close> is not caught.
\<close>

definition scan_executable ::
  "env \<Rightarrow> rules \<Rightarrow> int \<Rightarrow> path \<Rightarrow> nat \<Rightarrow> (string \<times> json) list \<Rightarrow> json \<Rightarrow> scan_state
     \<Rightarrow> exc + scan_state" where
  "scan_executable E rules timeout base_path total_n package executable st =
     (case executable of
        JObj ex \<Rightarrow>
          (case dict_get ex ''file'' (JStr []) of
             JStr file_path \<Rightarrow>
               (let full_path = full_path_of E base_path file_path in
                case path_exists E full_path of
                  Inl e \<Rightarrow> Inl e
                | Inr present \<Rightarrow>
                    if \<not> present
                    then Inr (st\<lparr>stderr := stderr st @ [WarnFileNotFound full_path]\<rparr>)
                    else
                      (let n = scanned st + 1;
                           progress =
                             (if n mod 10 = 0 \<or> n = total_n then [Progress n total_n] else [])
                       in case scan_file rules full_path timeout of
                            Inl e \<Rightarrow> Inl e
                          | Inr (warnings, matches) \<Rightarrow>
                              (if matches \<noteq> []
                               then Inr \<lparr>report =
                                           add_result
                                             (manifest_result package ex file_path matches)
                                             (count_scanned (report st)),
                                         scanned = n,
                                         stderr = stderr st @ progress @ warnings
                                           @ match_events file_path matches\<rparr>
                               else Inr \<lparr>report = count_scanned (report st),
                                         scanned = n,
                                         stderr = stderr st @ progress @ warnings\<rparr>)))
           | _ \<Rightarrow> Inl (AttributeError ''startswith''))
      | _ \<Rightarrow> Inl (AttributeError ''get''))"

text \<open>\<^verbatim>\<open>for executable in package.get('files', [])\<close>, over the items.\<close>

fun scan_executables ::
  "env \<Rightarrow> rules \<Rightarrow> int \<Rightarrow> path \<Rightarrow> nat \<Rightarrow> (string \<times> json) list \<Rightarrow> json list \<Rightarrow> scan_state
     \<Rightarrow> exc + scan_state" where
  "scan_executables E rules timeout base_path total_n package [] st = Inr st"
| "scan_executables E rules timeout base_path total_n package (executable # rest) st =
     (case scan_executable E rules timeout base_path total_n package executable st of
        Inl e \<Rightarrow> Inl e
      | Inr st' \<Rightarrow> scan_executables E rules timeout base_path total_n package rest st')"

text \<open>\<^verbatim>\<open>for package in packages\<close>, over the items.\<close>

fun scan_packages ::
  "env \<Rightarrow> rules \<Rightarrow> int \<Rightarrow> path \<Rightarrow> nat \<Rightarrow> json list \<Rightarrow> scan_state \<Rightarrow> exc + scan_state" where
  "scan_packages E rules timeout base_path total_n [] st = Inr st"
| "scan_packages E rules timeout base_path total_n (package # rest) st =
     (case package of
        JObj pkg \<Rightarrow>
          (case py_iter (dict_get pkg ''files'' (JArr [])) of
             Inl e \<Rightarrow> Inl e
           | Inr executables \<Rightarrow>
               (case scan_executables E rules timeout base_path total_n pkg executables st of
                  Inl e \<Rightarrow> Inl e
                | Inr st' \<Rightarrow> scan_packages E rules timeout base_path total_n rest st'))
      | _ \<Rightarrow> Inl (AttributeError ''get''))"

text \<open>
  The function returns the report; the model returns the stderr lines with it, or the
  exception that ends the scan.
\<close>

definition scan_files_from_json ::
  "env \<Rightarrow> rules \<Rightarrow> path \<Rightarrow> int \<Rightarrow> exc + (event list \<times> yara_results)" where
  "scan_files_from_json E rules json_path timeout =
     (case json_load E json_path of
        Inl e \<Rightarrow> Inl e
      | Inr scan_results \<Rightarrow>
          (case py_get scan_results ''packages'' (JArr []) of
             Inl e \<Rightarrow> Inl e
           | Inr packages \<Rightarrow>
               (case py_iter packages of
                  Inl e \<Rightarrow> Inl e
                | Inr pkgs \<Rightarrow>
                    (case total_files pkgs of
                       Inl e \<Rightarrow> Inl e
                     | Inr total_n \<Rightarrow>
                         (case scan_packages E rules timeout (path_parent E json_path) total_n pkgs
                                 \<lparr>report = empty_results, scanned = 0,
                                  stderr = [ScanningHeader total_n]\<rparr> of
                            Inl e \<Rightarrow> Inl e
                          | Inr st \<Rightarrow> Inr (stderr st, report st))))))"

section \<open>\<^verbatim>\<open>scan_directory\<close>\<close>

text \<open>
  \<^verbatim>\<open>list(dict.fromkeys(files))\<close>: the keys are inserted one by one; a key that is
  already there keeps its place.
\<close>

definition dict_fromkeys :: "'a list \<Rightarrow> 'a list" where
  "dict_fromkeys xs = fold (\<lambda>x keys. if x \<in> set keys then keys else keys @ [x]) xs []"

text \<open>
  \<^verbatim>\<open>for pattern in include_patterns: files.extend(dir_path.rglob(pattern))\<close>: the
  paths of all patterns, one pattern after the other.
\<close>

fun rglob_all :: "env \<Rightarrow> path \<Rightarrow> string list \<Rightarrow> exc + path list" where
  "rglob_all E dir_path [] = Inr []"
| "rglob_all E dir_path (pattern # rest) =
     (case path_rglob E dir_path pattern of
        Inl e \<Rightarrow> Inl e
      | Inr found \<Rightarrow>
          (case rglob_all E dir_path rest of
             Inl e \<Rightarrow> Inl e
           | Inr others \<Rightarrow> Inr (found @ others)))"

text \<open>\<^verbatim>\<open>[f for f in files if f.is_file()]\<close>\<close>

fun regular_files :: "env \<Rightarrow> path list \<Rightarrow> exc + path list" where
  "regular_files E [] = Inr []"
| "regular_files E (f # rest) =
     (case path_is_file E f of
        Inl e \<Rightarrow> Inl e
      | Inr regular \<Rightarrow>
          (case regular_files E rest of
             Inl e \<Rightarrow> Inl e
           | Inr kept \<Rightarrow> Inr (if regular then f # kept else kept)))"

text \<open>
  The files to scan. \<^verbatim>\<open>if include_patterns:\<close> is false for \<^verbatim>\<open>None\<close> and for the
  empty list.
\<close>

definition collect_files :: "env \<Rightarrow> path \<Rightarrow> string list option \<Rightarrow> exc + path list" where
  "collect_files E dir_path include_patterns =
     (case (case include_patterns of
              None \<Rightarrow> path_rglob E dir_path ''*''
            | Some pats \<Rightarrow>
                (if pats \<noteq> []
                 then (case rglob_all E dir_path pats of
                         Inl e \<Rightarrow> Inl e
                       | Inr found \<Rightarrow> Inr (dict_fromkeys found))
                 else path_rglob E dir_path ''*'')) of
        Inl e \<Rightarrow> Inl e
      | Inr files \<Rightarrow> regular_files E files)"

text \<open>The dictionary \<^verbatim>\<open>result\<close> of a discovered file with matches.\<close>

definition directory_result :: "path \<Rightarrow> match_data list \<Rightarrow> result" where
  "directory_result relative matches =
     \<lparr>r_fields = [(''file'', JStr relative)], r_matches = matches\<rparr>"

text \<open>
  \<^verbatim>\<open>for i, file_path in enumerate(files)\<close>: \<open>n\<close> is \<^verbatim>\<open>len(files)\<close>, \<open>i\<close> the index
  of the first remaining file. The state is the stderr output and the report.
\<close>

fun scan_directory_loop ::
  "env \<Rightarrow> rules \<Rightarrow> int \<Rightarrow> path \<Rightarrow> nat \<Rightarrow> nat \<Rightarrow> path list \<Rightarrow> event list \<times> yara_results
     \<Rightarrow> exc + (event list \<times> yara_results)" where
  "scan_directory_loop E rules timeout dir_path n i [] st = Inr st"
| "scan_directory_loop E rules timeout dir_path n i (file_path # rest) (err, yr) =
     (let progress = (if (i + 1) mod 10 = 0 \<or> i + 1 = n then [Progress (i + 1) n] else [])
      in case scan_file rules file_path timeout of
           Inl e \<Rightarrow> Inl e
         | Inr (warnings, matches) \<Rightarrow>
             (if matches \<noteq> []
              then (case path_relative_to E file_path dir_path of
                      Inl e \<Rightarrow> Inl e
                    | Inr relative \<Rightarrow>
                        scan_directory_loop E rules timeout dir_path n (i + 1) rest
                          (err @ progress @ warnings @ match_events file_path matches,
                           add_result (directory_result relative matches) (count_scanned yr)))
              else scan_directory_loop E rules timeout dir_path n (i + 1) rest
                     (err @ progress @ warnings, count_scanned yr)))"

definition scan_directory ::
  "env \<Rightarrow> rules \<Rightarrow> path \<Rightarrow> int \<Rightarrow> string list option \<Rightarrow> exc + (event list \<times> yara_results)" where
  "scan_directory E rules directory timeout include_patterns =
     (case collect_files E directory include_patterns of
        Inl e \<Rightarrow> Inl e
      | Inr files \<Rightarrow>
          scan_directory_loop E rules timeout directory (length files) 0 files
            ([ScanningHeader (length files)], empty_results))"

section \<open>\<^verbatim>\<open>emit_github_annotations\<close>\<close>

datatype level = AnnError | AnnWarning | AnnNotice

text \<open>
  A printed annotation \<^verbatim>\<open>::level title=YARA SEVERITY - category::message\<close>, with the
  values that the format strings interpolate: \<open>a_package\<close> is there when
  \<^verbatim>\<open>if package:\<close> holds, \<open>a_description\<close> when \<^verbatim>\<open>if description:\<close> holds.
\<close>

record annotation =
  a_level :: level
  a_severity :: string
  a_category :: meta_value
  a_package :: "json option"
  a_file :: json
  a_rule :: string
  a_description :: "meta_value option"

text \<open>\<^verbatim>\<open>str.upper\<close> on the ASCII letters.\<close>

definition upper_char :: "char \<Rightarrow> char" where
  "upper_char c =
     (let n = (of_char c :: nat) in if 97 \<le> n \<and> n \<le> 122 then char_of (n - 32) else c)"

definition str_upper :: "string \<Rightarrow> string" where
  "str_upper s = map upper_char s"

text \<open>\<^verbatim>\<open>severity.upper()\<close>: only a string has the method.\<close>

fun py_upper :: "meta_value \<Rightarrow> exc + string" where
  "py_upper (MStr s) = Inr (str_upper s)"
| "py_upper _ = Inl (AttributeError ''upper'')"

definition annotation_line ::
  "level \<Rightarrow> meta_value \<Rightarrow> json \<Rightarrow> json \<Rightarrow> match_data \<Rightarrow> exc + annotation" where
  "annotation_line lvl severity file_path package m =
     (case py_upper severity of
        Inl e \<Rightarrow> Inl e
      | Inr up \<Rightarrow>
          (let description = dict_get (md_meta m) ''description'' (MStr []);
               category = dict_get (md_meta m) ''category'' (MStr [])
           in Inr \<lparr>a_level = lvl,
                   a_severity = up,
                   a_category = category,
                   a_package = (if json_truthy package then Some package else None),
                   a_file = file_path,
                   a_rule = md_rule m,
                   a_description =
                     (if meta_truthy description then Some description else None)\<rparr>))"

text \<open>
  The body of the loop over the matches of one result: the printed annotation and the new
  value of \<^verbatim>\<open>high_severity_count\<close>.
\<close>

definition annotate :: "json \<Rightarrow> json \<Rightarrow> match_data \<Rightarrow> nat \<Rightarrow> exc + (annotation \<times> nat)" where
  "annotate file_path package m high_severity_count =
     (let severity = severity_of m
      in if severity = MStr ''critical'' \<or> severity = MStr ''high''
         then (case annotation_line AnnError severity file_path package m of
                 Inl e \<Rightarrow> Inl e
               | Inr a \<Rightarrow> Inr (a, high_severity_count + 1))
         else if severity = MStr ''medium''
         then (case annotation_line AnnWarning severity file_path package m of
                 Inl e \<Rightarrow> Inl e
               | Inr a \<Rightarrow> Inr (a, high_severity_count))
         else (case annotation_line AnnNotice severity file_path package m of
                 Inl e \<Rightarrow> Inl e
               | Inr a \<Rightarrow> Inr (a, high_severity_count)))"

fun emit_matches ::
  "json \<Rightarrow> json \<Rightarrow> match_data list \<Rightarrow> annotation list \<times> nat
     \<Rightarrow> exc + (annotation list \<times> nat)" where
  "emit_matches file_path package [] st = Inr st"
| "emit_matches file_path package (m # ms) (out, high_severity_count) =
     (case annotate file_path package m high_severity_count of
        Inl e \<Rightarrow> Inl e
      | Inr (a, c) \<Rightarrow> emit_matches file_path package ms (out @ [a], c))"

fun emit_results ::
  "result list \<Rightarrow> annotation list \<times> nat \<Rightarrow> exc + (annotation list \<times> nat)" where
  "emit_results [] st = Inr st"
| "emit_results (r # rs) st =
     (case emit_matches (dict_get (r_fields r) ''file'' (JStr ''unknown''))
             (dict_get (r_fields r) ''package'' (JStr [])) (r_matches r) st of
        Inl e \<Rightarrow> Inl e
      | Inr st' \<Rightarrow> emit_results rs st')"

text \<open>The annotations printed to stdout and the returned count, or the exception.\<close>

definition emit_github_annotations :: "yara_results \<Rightarrow> exc + (annotation list \<times> nat)" where
  "emit_github_annotations res = emit_results (results res) ([], 0)"

section \<open>\<^verbatim>\<open>load_rules\<close>\<close>

text \<open>
  \<^verbatim>\<open>rule_files[namespace] = str(rule_file)\<close> for each file of a glob. A Python
  dictionary keeps a key that is set again in its place and puts a new key last, as
  \<open>AList.update\<close> does.
\<close>

definition add_rule_files ::
  "env \<Rightarrow> path list \<Rightarrow> (string \<times> path) list \<Rightarrow> (string \<times> path) list" where
  "add_rule_files E files rule_files =
     fold (\<lambda>rule_file d. AList.update (path_stem E rule_file) rule_file d) files rule_files"

text \<open>
  The body of \<^verbatim>\<open>for path in rules_paths\<close>, on the stderr lines and the dictionary.
  The tests are made in the order of the source, and \<^verbatim>\<open>is_file()\<close> before the suffix;
  the files of \<^verbatim>\<open>*.yar\<close> are entered before \<^verbatim>\<open>*.yara\<close> is listed.
\<close>

definition load_path ::
  "env \<Rightarrow> path \<Rightarrow> event list \<times> (string \<times> path) list
     \<Rightarrow> exc + (event list \<times> (string \<times> path) list)" where
  "load_path E p st =
     (case st of (err, rule_files) \<Rightarrow>
        (case path_exists E p of
           Inl e \<Rightarrow> Inl e
         | Inr present \<Rightarrow>
             if \<not> present then Inr (err @ [WarnRulesPathMissing p], rule_files)
             else
               (case path_is_file E p of
                  Inl e \<Rightarrow> Inl e
                | Inr regular \<Rightarrow>
                    if regular \<and> (path_suffix E p = ''.yar'' \<or> path_suffix E p = ''.yara'')
                    then Inr (err, AList.update (path_stem E p) p rule_files)
                    else
                      (case path_is_dir E p of
                         Inl e \<Rightarrow> Inl e
                       | Inr directory \<Rightarrow>
                           if directory
                           then
                             (case path_glob E p ''*.yar'' of
                                Inl e \<Rightarrow> Inl e
                              | Inr yar \<Rightarrow>
                                  (case path_glob E p ''*.yara'' of
                                     Inl e \<Rightarrow> Inl e
                                   | Inr yara \<Rightarrow>
                                       Inr (err, add_rule_files E yara
                                                   (add_rule_files E yar rule_files))))
                           else Inr (err, rule_files)))))"

text \<open>\<^verbatim>\<open>for path in rules_paths\<close>, from the given lines and dictionary.\<close>

fun load_paths ::
  "env \<Rightarrow> path list \<Rightarrow> event list \<times> (string \<times> path) list
     \<Rightarrow> exc + (event list \<times> (string \<times> path) list)" where
  "load_paths E [] st = Inr st"
| "load_paths E (p # rest) st =
     (case load_path E p st of
        Inl e \<Rightarrow> Inl e
      | Inr st' \<Rightarrow> load_paths E rest st')"

definition collect_rule_files ::
  "env \<Rightarrow> path list \<Rightarrow> exc + (event list \<times> (string \<times> path) list)" where
  "collect_rule_files E rules_paths = load_paths E rules_paths ([], [])"

text \<open>
  \<^verbatim>\<open>load_rules\<close> returns \<^verbatim>\<open>None\<close> or the compiled rules, with what it printed; a
  syntax error of the engine becomes \<^verbatim>\<open>sys.exit(1)\<close>, any other exception of
  \<^verbatim>\<open>yara.compile\<close> leaves the function.
\<close>

definition load_rules :: "env \<Rightarrow> path list \<Rightarrow> exc + (event list \<times> rules option)" where
  "load_rules E rules_paths =
     (case collect_rule_files E rules_paths of
        Inl e \<Rightarrow> Inl e
      | Inr (err, rule_files) \<Rightarrow>
          if rule_files = [] then Inr (err @ [WarnNoRules], None)
          else
            (case yara_compile E rule_files of
               Inr compiled \<Rightarrow>
                 Inr (err @ [LoadingRules (length rule_files)]
                        @ map (\<lambda>(namespace, p). RuleFileLine namespace p) rule_files,
                      Some compiled)
             | Inl (YaraSyntaxError e) \<Rightarrow> Inl (SystemExit 1)
             | Inl e \<Rightarrow> Inl e))"

section \<open>\<^verbatim>\<open>main\<close>\<close>




text \<open>
  \<^verbatim>\<open>rules_paths\<close> after \<^verbatim>\<open>rules_paths.insert(0, str(bundled_rules))\<close>, which runs
  unless \<^verbatim>\<open>--no-bundled-rules\<close> is set or the directory is missing; the directory is
  looked for only without \<^verbatim>\<open>--no-bundled-rules\<close>.
\<close>

definition main_rules_paths :: "env \<Rightarrow> args \<Rightarrow> exc + path list" where
  "main_rules_paths E a =
     (if \<not> arg_no_bundled_rules a
      then (case path_exists E (bundled_rules E) of
              Inl e \<Rightarrow> Inl e
            | Inr present \<Rightarrow>
                Inr (if present then bundled_rules E # arg_rules a else arg_rules a))
      else Inr (arg_rules a))"





section \<open>Sample inputs\<close>

text \<open>
  A small world on which the theorems below are evaluated: a bundled rule directory and a
  user rule file with the same stem, a rule file that does not compile, a manifest with a
  missing file, a matching file and a file that the engine cannot read, a manifest that
  names a file whose name is too long for the file system, and a directory with a matching
  file, a file on which the engine times out and a directory whose name matches a pattern.
  One rule has an integer severity; one matched string has no instance.
\<close>

definition sample_strings :: "string_match list" where
  "sample_strings =
     \<lparr>sm_identifier = ''$empty'', sm_instances = []\<rparr>
       # map (\<lambda>k. \<lparr>sm_identifier = ''$s'', sm_instances = [7 + k, 900]\<rparr>) [0 ..< 12]"

definition sample_match :: yara_match where
  "sample_match =
     \<lparr>match_rule = ''Miner'', match_namespace = ''malware'', match_tags = [''coin''],
      match_meta = [(''severity'', MStr ''high''), (''category'', MStr ''miner'')],
      match_strings = sample_strings\<rparr>"

definition numeric_match :: yara_match where
  "numeric_match =
     \<lparr>match_rule = ''Packed'', match_namespace = ''custom'', match_tags = [],
      match_meta = [(''severity'', MInt 3)],
      match_strings = []\<rparr>"

definition sample_rules :: rules where
  "sample_rules file_path timeout =
     (if file_path = ''proj/node_modules/left-pad/a.node'' then Returns [sample_match]
      else if file_path = ''proj/node_modules/left-pad/big.node''
      then Raises (YaraError ''could not map file'')
      else if file_path = ''site/a.js'' then Returns [sample_match, numeric_match]
      else if file_path = ''site/b.js'' then Raises YaraTimeoutError
      else Returns [])"

definition missing_entry :: "(string \<times> json) list" where
  "missing_entry = [(''file'', JStr ''left-pad/gone.node'')]"

definition sample_entry :: "(string \<times> json) list" where
  "sample_entry =
     [(''file'', JStr ''left-pad/a.node''), (''sha256'', JStr ''9f2c''), (''type'', JStr ''ELF'')]"

definition sample_package :: "(string \<times> json) list" where
  "sample_package =
     [(''package'', JStr ''left-pad''), (''version'', JStr ''1.3.0''),
      (''files'', JArr [JObj missing_entry, JObj sample_entry,
                        JObj [(''file'', JStr ''left-pad/big.node'')]])]"

definition sample_manifest :: json where
  "sample_manifest = JObj [(''packages'', JArr [JObj sample_package])]"

text \<open>A file name of 300 characters, and a manifest whose first entry names it.\<close>

definition long_name :: string where
  "long_name = replicate 300 (CHR ''a'')"

definition long_name_entry :: "(string \<times> json) list" where
  "long_name_entry = [(''file'', JStr long_name)]"

definition long_name_manifest :: json where
  "long_name_manifest =
     JObj [(''packages'',
            JArr [JObj [(''package'', JStr ''left-pad''),
                        (''files'', JArr [JObj long_name_entry, JObj sample_entry])]])]"

text \<open>The paths that exist in the sample world.\<close>

definition sample_paths :: "path list" where
  "sample_paths =
     [''/opt/rules'', ''my/malware.yar'', ''my/broken.yar'',
      ''proj/node_modules/left-pad/a.node'', ''proj/node_modules/left-pad/big.node'',
      ''proj/results.json'', ''proj/long.json'']"

text \<open>
  Command lines, and the arguments that the parser makes of them: the first scans the
  sample manifest with the bundled rules and a user rule file, prints annotations and writes
  a file; the others name a manifest that does not exist, an output file in a directory
  that does not exist, a timeout that is no integer, neither \<^verbatim>\<open>--input\<close> nor
  \<^verbatim>\<open>--dir\<close>, no rule path at all, a rule path that does not exist, a rule file with a
  syntax error, a pattern that \<^verbatim>\<open>rglob\<close> refuses, and a directory scan printed to
  stdout.
\<close>

definition no_args :: args where
  "no_args =
     \<lparr>arg_input = None, arg_dir = None, arg_include = [], arg_rules = [],
      arg_output = None, arg_timeout = 60, arg_github_annotations = False,
      arg_no_bundled_rules = False\<rparr>"

definition sample_args :: args where
  "sample_args =
     \<lparr>arg_input = Some ''proj/results.json'', arg_dir = None, arg_include = [],
      arg_rules = [''my/malware.yar''], arg_output = Some ''yara.json'', arg_timeout = 60,
      arg_github_annotations = True, arg_no_bundled_rules = False\<rparr>"

definition missing_manifest_args :: args where
  "missing_manifest_args = sample_args\<lparr>arg_input := Some ''proj/absent.json''\<rparr>"

definition unwritable_output_args :: args where
  "unwritable_output_args = sample_args\<lparr>arg_output := Some ''out/yara.json''\<rparr>"

definition no_target_args :: args where
  "no_target_args = no_args\<lparr>arg_rules := [''my/malware.yar'']\<rparr>"

definition no_rules_args :: args where
  "no_rules_args = no_args\<lparr>arg_dir := Some ''site'', arg_no_bundled_rules := True\<rparr>"

definition absent_rules_args :: args where
  "absent_rules_args = no_rules_args\<lparr>arg_rules := [''my/absent'']\<rparr>"

definition broken_rules_args :: args where
  "broken_rules_args = no_args\<lparr>arg_dir := Some ''site'', arg_rules := [''my/broken.yar'']\<rparr>"

definition refused_pattern_args :: args where
  "refused_pattern_args = no_args\<lparr>arg_dir := Some ''site'', arg_include := [''**.js'']\<rparr>"

definition stdout_args :: args where
  "stdout_args = no_args\<lparr>arg_dir := Some ''site'', arg_include := [''*.js'', ''a.*'']\<rparr>"

definition sample_argv :: "string list" where
  "sample_argv =
     [''--input'', ''proj/results.json'', ''--rules'', ''my/malware.yar'',
      ''--output'', ''yara.json'', ''--github-annotations'']"

definition missing_manifest_argv :: "string list" where
  "missing_manifest_argv =
     [''--input'', ''proj/absent.json'', ''--rules'', ''my/malware.yar'',
      ''--output'', ''yara.json'', ''--github-annotations'']"

definition unwritable_output_argv :: "string list" where
  "unwritable_output_argv =
     [''--input'', ''proj/results.json'', ''--rules'', ''my/malware.yar'',
      ''--output'', ''out/yara.json'', ''--github-annotations'']"


definition no_target_argv :: "string list" where
  "no_target_argv = [''--rules'', ''my/malware.yar'']"

definition no_rules_argv :: "string list" where
  "no_rules_argv = [''--dir'', ''site'', ''--no-bundled-rules'']"

definition absent_rules_argv :: "string list" where
  "absent_rules_argv = [''--dir'', ''site'', ''--no-bundled-rules'', ''--rules'', ''my/absent'']"

definition broken_rules_argv :: "string list" where
  "broken_rules_argv = [''--dir'', ''site'', ''--rules'', ''my/broken.yar'']"

definition refused_pattern_argv :: "string list" where
  "refused_pattern_argv = [''--dir'', ''site'', ''--include'', ''**.js'']"

definition stdout_argv :: "string list" where
  "stdout_argv = [''--dir'', ''site'', ''--include'', ''*.js'', ''--include'', ''a.*'']"

definition sample_parse_args :: "string list \<Rightarrow> exc + args" where
  "sample_parse_args argv =
     (if argv = sample_argv then Inr sample_args
      else if argv = missing_manifest_argv then Inr missing_manifest_args
      else if argv = unwritable_output_argv then Inr unwritable_output_args
      else if argv = no_target_argv then Inr no_target_args
      else if argv = no_rules_argv then Inr no_rules_args
      else if argv = absent_rules_argv then Inr absent_rules_args
      else if argv = broken_rules_argv then Inr broken_rules_args
      else if argv = refused_pattern_argv then Inr refused_pattern_args
      else if argv = stdout_argv then Inr stdout_args
      else Inl (SystemExit 2))"

definition sample_env :: env where
  "sample_env =
     \<lparr>parse_args = sample_parse_args,
      path_exists = (\<lambda>p. if 255 < length p then Inl (OSError ''File name too long'')
                       else Inr (p \<in> set sample_paths)),
      path_is_file = (\<lambda>p. Inr (p \<in> set [''my/malware.yar'', ''my/broken.yar'', ''site/a.js'',
                                           ''site/b.js''])),
      path_is_dir = (\<lambda>p. Inr (p \<in> set [''/opt/rules'', ''site/pkg.js''])),
      path_glob = (\<lambda>p pat. if p = ''/opt/rules'' \<and> pat = ''*.yar''
                     then Inr [''/opt/rules/malware.yar'', ''/opt/rules/webshell.yar'']
                     else Inr []),
      path_rglob = (\<lambda>p pat. if pat = ''**.js'' then Inl (ValueError ''Invalid pattern'')
                      else if p = ''site'' \<and> pat = ''*.js''
                      then Inr [''site/a.js'', ''site/pkg.js'', ''site/b.js'']
                      else if p = ''site'' \<and> pat = ''a.*''
                      then Inr [''site/a.d'', ''site/a.js'']
                      else Inr []),
      path_stem = (\<lambda>p. if p = ''/opt/rules/malware.yar'' \<or> p = ''my/malware.yar''
                     then ''malware''
                     else if p = ''my/broken.yar'' then ''broken'' else ''webshell''),
      path_suffix = (\<lambda>p. ''.yar''),
      path_parent = (\<lambda>p. ''proj''),
      path_join = (\<lambda>p q. p @ ''/'' @ q),
      path_relative_to = (\<lambda>p d. if startswith p (d @ ''/'') then Inr (drop (length d + 1) p)
                            else Inl (ValueError ''relative_to'')),
      json_load = (\<lambda>p. if p = ''proj/results.json'' then Inr sample_manifest
                     else if p = ''proj/long.json'' then Inr long_name_manifest
                     else Inl (OSError ''No such file'')),
      yara_compile = (\<lambda>rule_files. if map_of rule_files ''broken'' = None
                        then Inr sample_rules
                        else Inl (YaraSyntaxError ''unterminated string'')),
      open_write = (\<lambda>p. if p = ''out/yara.json'' then Some (OSError ''No such directory'')
                      else None),
      print_json = (\<lambda>res. None),
      bundled_rules = ''/opt/rules''\<rparr>"

text \<open>The reports of the two scanners on the sample world.\<close>

definition sample_json_report :: yara_results where
  "sample_json_report =
     \<lparr>totalScanned = 2, totalMatches = 1, filesWithMatches = 1,
      results =
        [\<lparr>r_fields =
            [(''file'', JStr ''left-pad/a.node''), (''package'', JStr ''left-pad''),
             (''version'', JStr ''1.3.0''), (''sha256'', JStr ''9f2c''),
             (''type'', JStr ''ELF'')],
          r_matches = [match_data_of sample_match]\<rparr>]\<rparr>"

definition sample_json_stderr :: "event list" where
  "sample_json_stderr =
     [ScanningHeader 3, WarnFileNotFound ''proj/node_modules/left-pad/gone.node'',
      MatchFound ''left-pad/a.node'' ''Miner'' (MStr ''high''),
      WarnYaraError ''proj/node_modules/left-pad/big.node'' ''could not map file'']"

definition sample_dir_report :: yara_results where
  "sample_dir_report =
     \<lparr>totalScanned = 2, totalMatches = 2, filesWithMatches = 1,
      results =
        [\<lparr>r_fields = [(''file'', JStr ''a.js'')],
          r_matches = [match_data_of sample_match, match_data_of numeric_match]\<rparr>]\<rparr>"

definition sample_dir_stderr :: "event list" where
  "sample_dir_stderr =
     [ScanningHeader 2, MatchFound ''site/a.js'' ''Miner'' (MStr ''high''),
      MatchFound ''site/a.js'' ''Packed'' (MInt 3), Progress 2 2,
      WarnScanTimeout ''site/b.js'']"

text \<open>The rule files and the stderr lines of \<^verbatim>\<open>load_rules\<close> for the first command line.\<close>

definition sample_rule_files :: "(string \<times> path) list" where
  "sample_rule_files =
     [(''malware'', ''my/malware.yar''), (''webshell'', ''/opt/rules/webshell.yar'')]"

definition sample_load_stderr :: "event list" where
  "sample_load_stderr =
     [LoadingRules 2, RuleFileLine ''malware'' ''my/malware.yar'',
      RuleFileLine ''webshell'' ''/opt/rules/webshell.yar'']"

section \<open>Notions used in the statements\<close>

definition report_invariant :: "yara_results \<Rightarrow> bool" where
  "report_invariant yr \<longleftrightarrow>
     filesWithMatches yr \<le> totalScanned yr \<and> totalMatches yr \<ge> filesWithMatches yr"

text \<open>
  What it means for a result record to come from the entry \<open>ex\<close> of the package
  \<open>package\<close> of a manifest: the entry names a file that exists, the scan of that file gave
  the matches of the record, there is at least one, and the record is the dictionary built
  from the entry.
\<close>

definition entry_result ::
  "env \<Rightarrow> rules \<Rightarrow> int \<Rightarrow> path \<Rightarrow> (string \<times> json) list \<Rightarrow> (string \<times> json) list \<Rightarrow> result
     \<Rightarrow> bool" where
  "entry_result E rules timeout base_path package ex res \<longleftrightarrow>
     (\<exists>entry warnings.
        dict_get ex ''file'' (JStr []) = JStr entry
        \<and> path_exists E (full_path_of E base_path entry) = Inr True
        \<and> scan_file rules (full_path_of E base_path entry) timeout
            = Inr (warnings, r_matches res)
        \<and> r_matches res \<noteq> []
        \<and> res = manifest_result package ex entry (r_matches res))"

text \<open>Likewise for a file discovered under the directory \<open>dir_path\<close>.\<close>

definition discovered_result :: "env \<Rightarrow> rules \<Rightarrow> int \<Rightarrow> path \<Rightarrow> path \<Rightarrow> result \<Rightarrow> bool" where
  "discovered_result E rules timeout dir_path file_path res \<longleftrightarrow>
     (\<exists>relative warnings.
        path_relative_to E file_path dir_path = Inr relative
        \<and> scan_file rules file_path timeout = Inr (warnings, r_matches res)
        \<and> r_matches res \<noteq> []
        \<and> res = directory_result relative (r_matches res))"

text \<open>
  What a run of the manifest loop leaves apart from its stderr lines: the exception, or the
  report and the counter of the progress lines.
\<close>

definition outcome_counts :: "exc + scan_state \<Rightarrow> exc + (yara_results \<times> nat)" where
  "outcome_counts r = (case r of Inl e \<Rightarrow> Inl e | Inr s \<Rightarrow> Inr (report s, scanned s))"

definition outcome_report :: "exc + scan_state \<Rightarrow> exc + yara_results" where
  "outcome_report r = (case r of Inl e \<Rightarrow> Inl e | Inr s \<Rightarrow> Inr (report s))"

text \<open>The position at which \<open>x\<close> first occurs in \<open>xs\<close> (its length when there is none).\<close>

definition first_index :: "'a list \<Rightarrow> 'a \<Rightarrow> nat" where
  "first_index xs x = length (takeWhile (\<lambda>y. y \<noteq> x) xs)"

section \<open>Evaluation of the sample inputs\<close>

lemmas sample_defs =
  sample_env_def sample_rules_def sample_manifest_def sample_package_def sample_entry_def
  missing_entry_def sample_paths_def

lemma sample_scan_files_from_json:
  "scan_files_from_json sample_env sample_rules ''proj/results.json'' 60 =
     Inr (sample_json_stderr, sample_json_report)"
  by (simp add: scan_files_from_json_def sample_defs dict_get_def scan_executable_def
      full_path_of_def startswith_def scan_file_def empty_results_def count_scanned_def
      add_result_def manifest_result_def match_events_def severity_of_def match_data_of_def
      sample_match_def sample_json_report_def sample_json_stderr_def)

lemma sample_scan_directory:
  "scan_directory sample_env sample_rules ''site'' 60 (Some [''*.js'', ''a.*'']) =
     Inr (sample_dir_stderr, sample_dir_report)"
  by (simp add: scan_directory_def collect_files_def dict_fromkeys_def sample_defs dict_get_def
      startswith_def scan_file_def empty_results_def count_scanned_def
      add_result_def directory_result_def match_events_def severity_of_def match_data_of_def
      sample_match_def numeric_match_def sample_dir_report_def sample_dir_stderr_def)

section \<open>\<^verbatim>\<open>scan_file\<close>: results and caught errors\<close>

lemma scan_file_Returns:
  "rules file_path timeout = Returns res \<Longrightarrow>
   scan_file rules file_path timeout = Inr ([], map match_data_of res)"
  by (simp add: scan_file_def)

lemma scan_file_Raises:
  assumes "rules file_path timeout = Raises e" and "is_Exception e"
  shows "\<exists>w. scan_file rules file_path timeout = Inr ([w], [])
           \<and> (e = YaraTimeoutError \<longrightarrow> w = WarnScanTimeout file_path)
           \<and> (\<forall>msg. e = YaraError msg \<longrightarrow> w = WarnYaraError file_path msg)"
  using assms by (cases e) (simp_all add: scan_file_def)

lemma scan_file_propagates:
  "scan_file rules file_path timeout = Inl e \<longleftrightarrow>
   rules file_path timeout = Raises e \<and> \<not> is_Exception e"
proof (cases "rules file_path timeout")
  case (Returns res)
  then show ?thesis by (simp add: scan_file_def)
next
  case (Raises x)
  then show ?thesis by (cases x) (auto simp add: scan_file_def)
qed

text \<open>
  C3: when the engine returns its matches, \<^verbatim>\<open>scan_file\<close> returns one record for each of
  them, in order. The \<^verbatim>\<open>strings\<close> list of a record has one pair for each of the first
  10 matched strings of its match and no other, so at most 10; the pair at position \<open>i\<close>
  holds the identifier of the matched string at position \<open>i\<close> and, as offset, the offset of
  the first instance of that string (0 when it has no instance).
\<close>

theorem scan_file_strings_first_10:
  assumes "rules file_path timeout = Returns res"
  shows "scan_file rules file_path timeout = Inr ([], map match_data_of res) \<and>
    (\<forall>m \<in> set res.
        md_strings (match_data_of m) = map string_entry (take 10 (match_strings m))
        \<and> length (md_strings (match_data_of m)) = min 10 (length (match_strings m))
        \<and> length (md_strings (match_data_of m)) \<le> 10
        \<and> (\<forall>i < length (md_strings (match_data_of m)).
              sd_identifier (md_strings (match_data_of m) ! i)
                = sm_identifier (match_strings m ! i)
              \<and> sd_offset (md_strings (match_data_of m) ! i)
                = (case sm_instances (match_strings m ! i) of [] \<Rightarrow> 0
                   | first_offset # others \<Rightarrow> first_offset)))"
proof -
  have "scan_file rules file_path timeout = Inr ([], map match_data_of res)"
    using assms by (simp add: scan_file_def)
  moreover have "md_strings (match_data_of m) = map string_entry (take 10 (match_strings m))"
    for m
    by (simp add: match_data_of_def)
  moreover have "sd_identifier (map string_entry (take 10 xs) ! i) = sm_identifier (xs ! i)
      \<and> sd_offset (map string_entry (take 10 xs) ! i)
          = (case sm_instances (xs ! i) of [] \<Rightarrow> 0 | first_offset # others \<Rightarrow> first_offset)"
    if "i < length (map string_entry (take 10 xs))" for xs i
    using that by (simp add: string_entry_def)
  ultimately show ?thesis by (simp add: min.commute)
qed

text \<open>
  On the sample match, which has 13 matched strings, the first without instance: the ten
  pairs, with the offsets of the first instances.
\<close>

theorem scan_file_strings_first_10_witness:
  "sample_rules ''proj/node_modules/left-pad/a.node'' 60 = Returns [sample_match]
   \<and> length (match_strings sample_match) = 13
   \<and> take 2 (match_strings sample_match)
       = [\<lparr>sm_identifier = ''$empty'', sm_instances = []\<rparr>,
          \<lparr>sm_identifier = ''$s'', sm_instances = [7, 900]\<rparr>]
   \<and> scan_file sample_rules ''proj/node_modules/left-pad/a.node'' 60
       = Inr ([], [match_data_of sample_match])
   \<and> md_strings (match_data_of sample_match)
       = [\<lparr>sd_identifier = ''$empty'', sd_offset = 0\<rparr>,
          \<lparr>sd_identifier = ''$s'', sd_offset = 7\<rparr>,
          \<lparr>sd_identifier = ''$s'', sd_offset = 8\<rparr>,
          \<lparr>sd_identifier = ''$s'', sd_offset = 9\<rparr>,
          \<lparr>sd_identifier = ''$s'', sd_offset = 10\<rparr>,
          \<lparr>sd_identifier = ''$s'', sd_offset = 11\<rparr>,
          \<lparr>sd_identifier = ''$s'', sd_offset = 12\<rparr>,
          \<lparr>sd_identifier = ''$s'', sd_offset = 13\<rparr>,
          \<lparr>sd_identifier = ''$s'', sd_offset = 14\<rparr>,
          \<lparr>sd_identifier = ''$s'', sd_offset = 15\<rparr>]
   \<and> length (md_strings (match_data_of sample_match)) = 10
   \<and> sd_identifier (md_strings (match_data_of sample_match) ! 1)
       = sm_identifier (match_strings sample_match ! 1)
   \<and> sd_offset (md_strings (match_data_of sample_match) ! 1) = 7"
proof -
  have r: "sample_rules ''proj/node_modules/left-pad/a.node'' 60 = Returns [sample_match]"
    by (simp add: sample_rules_def)
  have u: "[0 ..< 12] = [0, 1, 2, 3, 4, 5, 6, 7, 8, 9, 10, 11 :: nat]"
    by (simp add: upt_rec)
  have n: "length (match_strings sample_match) = 13"
    "take 2 (match_strings sample_match)
       = [\<lparr>sm_identifier = ''$empty'', sm_instances = []\<rparr>,
          \<lparr>sm_identifier = ''$s'', sm_instances = [7, 900]\<rparr>]"
    "match_strings sample_match ! 1 = \<lparr>sm_identifier = ''$s'', sm_instances = [7, 900]\<rparr>"
    by (simp_all add: sample_match_def sample_strings_def u)
  have e: "map string_entry (take 10 (match_strings sample_match))
       = [\<lparr>sd_identifier = ''$empty'', sd_offset = 0\<rparr>,
          \<lparr>sd_identifier = ''$s'', sd_offset = 7\<rparr>,
          \<lparr>sd_identifier = ''$s'', sd_offset = 8\<rparr>,
          \<lparr>sd_identifier = ''$s'', sd_offset = 9\<rparr>,
          \<lparr>sd_identifier = ''$s'', sd_offset = 10\<rparr>,
          \<lparr>sd_identifier = ''$s'', sd_offset = 11\<rparr>,
          \<lparr>sd_identifier = ''$s'', sd_offset = 12\<rparr>,
          \<lparr>sd_identifier = ''$s'', sd_offset = 13\<rparr>,
          \<lparr>sd_identifier = ''$s'', sd_offset = 14\<rparr>,
          \<lparr>sd_identifier = ''$s'', sd_offset = 15\<rparr>]"
    by (simp add: sample_match_def sample_strings_def u string_entry_def)
  show ?thesis
    using scan_file_strings_first_10
            [of sample_rules "''proj/node_modules/left-pad/a.node''" 60 "[sample_match]"]
      r n e
    by simp
qed

text \<open>
  How the two loops go on after a file without matches, which is what a caught error
  leaves.
\<close>

lemma scan_directory_loop_no_matches:
  assumes "scan_file rules file_path timeout = Inr (warnings, [])"
  shows "scan_directory_loop E rules timeout dir_path n i (file_path # rest) (err, yr) =
         scan_directory_loop E rules timeout dir_path n (i + 1) rest
           (err @ (if (i + 1) mod 10 = 0 \<or> i + 1 = n then [Progress (i + 1) n] else [])
              @ warnings,
            count_scanned yr)"
  using assms by (simp add: Let_def)

lemma scan_executables_no_matches:
  assumes "scan_file rules (full_path_of E base_path file_path) timeout = Inr (warnings, [])"
    and "dict_get ex ''file'' (JStr []) = JStr file_path"
    and "path_exists E (full_path_of E base_path file_path) = Inr True"
  shows "scan_executables E rules timeout base_path total_n package (JObj ex # rest) st =
         scan_executables E rules timeout base_path total_n package rest
           \<lparr>report = count_scanned (report st), scanned = scanned st + 1,
            stderr = stderr st
              @ (if (scanned st + 1) mod 10 = 0 \<or> scanned st + 1 = total_n
                 then [Progress (scanned st + 1) total_n] else [])
              @ warnings\<rparr>"
  using assms by (simp add: scan_executable_def Let_def)

text \<open>
  C2: when the engine raises a timeout, an engine error or any other \<^verbatim>\<open>Exception\<close> on a
  file, \<^verbatim>\<open>scan_file\<close> returns normally, with one warning on stderr (the timeout warning
  for a timeout, the engine warning for an engine error) and an empty list of matches; the
  loop of \<^verbatim>\<open>scan_directory\<close> and the loop of \<^verbatim>\<open>scan_files_from_json\<close> count
  the file as scanned and go on with the remaining targets.
\<close>

theorem scan_file_swallows_errors:
  assumes "rules file_path timeout = Raises e" and "is_Exception e"
  shows "\<exists>w. scan_file rules file_path timeout = Inr ([w], [])
      \<and> (e = YaraTimeoutError \<longrightarrow> w = WarnScanTimeout file_path)
      \<and> (\<forall>msg. e = YaraError msg \<longrightarrow> w = WarnYaraError file_path msg)
      \<and> scan_directory_loop E rules timeout dir_path n i (file_path # rest) (err, yr) =
          scan_directory_loop E rules timeout dir_path n (i + 1) rest
            (err @ (if (i + 1) mod 10 = 0 \<or> i + 1 = n then [Progress (i + 1) n] else [])
               @ [w],
             count_scanned yr)
      \<and> (dict_get ex ''file'' (JStr []) = JStr entry
           \<and> full_path_of E base_path entry = file_path \<and> path_exists E file_path = Inr True \<longrightarrow>
          scan_executables E rules timeout base_path total_n package (JObj ex # others) st =
          scan_executables E rules timeout base_path total_n package others
            \<lparr>report = count_scanned (report st), scanned = scanned st + 1,
             stderr = stderr st
               @ (if (scanned st + 1) mod 10 = 0 \<or> scanned st + 1 = total_n
                  then [Progress (scanned st + 1) total_n] else [])
               @ [w]\<rparr>)"
proof -
  from scan_file_Raises [of rules file_path timeout e] assms obtain w where
    w: "scan_file rules file_path timeout = Inr ([w], [])"
      "e = YaraTimeoutError \<longrightarrow> w = WarnScanTimeout file_path"
      "\<forall>msg. e = YaraError msg \<longrightarrow> w = WarnYaraError file_path msg"
    by blast
  have manifest:
    "scan_executables E rules timeout base_path total_n package (JObj ex # others) st =
       scan_executables E rules timeout base_path total_n package others
         \<lparr>report = count_scanned (report st), scanned = scanned st + 1,
          stderr = stderr st
            @ (if (scanned st + 1) mod 10 = 0 \<or> scanned st + 1 = total_n
               then [Progress (scanned st + 1) total_n] else [])
            @ [w]\<rparr>"
    if "dict_get ex ''file'' (JStr []) = JStr entry"
      and "full_path_of E base_path entry = file_path" and "path_exists E file_path = Inr True"
    using that w(1) scan_executables_no_matches [of rules E base_path entry timeout "[w]" ex]
    by blast
  show ?thesis
    using w scan_directory_loop_no_matches [OF w(1)] manifest by blast
qed

text \<open>
  On the sample world: the engine error on \<^verbatim>\<open>big.node\<close> while the manifest loop is at
  its last entry, with a directory loop started on the same path and one more file.
\<close>

theorem scan_file_swallows_errors_witness:
  "sample_rules ''proj/node_modules/left-pad/big.node'' 60
     = Raises (YaraError ''could not map file'')
   \<and> is_Exception (YaraError ''could not map file'')
   \<and> scan_file sample_rules ''proj/node_modules/left-pad/big.node'' 60
     = Inr ([WarnYaraError ''proj/node_modules/left-pad/big.node'' ''could not map file''], [])
   \<and> scan_directory_loop sample_env sample_rules 60 ''proj'' 2 0
       [''proj/node_modules/left-pad/big.node'', ''proj/other''] ([], empty_results)
     = Inr ([WarnYaraError ''proj/node_modules/left-pad/big.node'' ''could not map file'',
             Progress 2 2],
            count_scanned (count_scanned empty_results))
   \<and> scan_executables sample_env sample_rules 60 ''proj'' 3 []
       [JObj [(''file'', JStr ''left-pad/big.node'')]]
       \<lparr>report = empty_results, scanned = 2, stderr = []\<rparr>
     = Inr \<lparr>report = count_scanned empty_results, scanned = 3,
            stderr = [Progress 3 3,
              WarnYaraError ''proj/node_modules/left-pad/big.node'' ''could not map file'']\<rparr>"
proof -
  have r: "sample_rules ''proj/node_modules/left-pad/big.node'' 60
             = Raises (YaraError ''could not map file'')"
    by (simp add: sample_rules_def)
  have p: "dict_get [(''file'', JStr ''left-pad/big.node'')] ''file'' (JStr [])
             = JStr ''left-pad/big.node''
           \<and> full_path_of sample_env ''proj'' ''left-pad/big.node''
             = ''proj/node_modules/left-pad/big.node''
           \<and> path_exists sample_env ''proj/node_modules/left-pad/big.node'' = Inr True"
    by (simp add: dict_get_def full_path_of_def startswith_def sample_env_def sample_paths_def)
  have o: "scan_file sample_rules ''proj/other'' 60 = Inr ([], [])"
    by (simp add: scan_file_def sample_rules_def)
  show ?thesis
    using scan_file_swallows_errors
      [of sample_rules "''proj/node_modules/left-pad/big.node''" 60
        "YaraError ''could not map file''" sample_env "''proj''" 2 0 "[''proj/other'']" "[]"
        empty_results "[(''file'', JStr ''left-pad/big.node'')]" "''left-pad/big.node''"
        "''proj''" 3 "[]" "[]" "\<lparr>report = empty_results, scanned = 2, stderr = []\<rparr>"]
      r p o
    by (auto simp: Let_def)
qed

section \<open>The invariant of the counters\<close>

lemma report_invariant_empty: "report_invariant empty_results"
  by (simp add: report_invariant_def empty_results_def)

lemma report_invariant_count_scanned:
  "report_invariant yr \<Longrightarrow> report_invariant (count_scanned yr)"
  by (simp add: report_invariant_def count_scanned_def)

lemma report_invariant_add_result:
  "report_invariant yr \<Longrightarrow> r_matches res \<noteq> [] \<Longrightarrow>
   report_invariant (add_result res (count_scanned yr))"
  by (cases "r_matches res") (simp_all add: report_invariant_def count_scanned_def add_result_def)

lemma manifest_result_matches [simp]: "r_matches (manifest_result p e f ms) = ms"
  by (simp add: manifest_result_def)

lemma directory_result_matches [simp]: "r_matches (directory_result rel ms) = ms"
  by (simp add: directory_result_def)

text \<open>The three ways in which the body of the manifest loop returns.\<close>

lemma scan_executable_cases:
  assumes "scan_executable E rules timeout base_path total_n package executable st = Inr st'"
  obtains
    (missing) ex file_path where "executable = JObj ex"
      "dict_get ex ''file'' (JStr []) = JStr file_path"
      "path_exists E (full_path_of E base_path file_path) = Inr False"
      "st' = st\<lparr>stderr := stderr st @ [WarnFileNotFound (full_path_of E base_path file_path)]\<rparr>"
  | (clean) ex file_path warnings where "executable = JObj ex"
      "dict_get ex ''file'' (JStr []) = JStr file_path"
      "path_exists E (full_path_of E base_path file_path) = Inr True"
      "scan_file rules (full_path_of E base_path file_path) timeout = Inr (warnings, [])"
      "report st' = count_scanned (report st)" "scanned st' = scanned st + 1"
  | (matched) ex file_path warnings matches where "executable = JObj ex"
      "dict_get ex ''file'' (JStr []) = JStr file_path"
      "path_exists E (full_path_of E base_path file_path) = Inr True"
      "scan_file rules (full_path_of E base_path file_path) timeout = Inr (warnings, matches)"
      "matches \<noteq> []"
      "report st' =
         add_result (manifest_result package ex file_path matches) (count_scanned (report st))"
      "scanned st' = scanned st + 1"
  using assms unfolding scan_executable_def Let_def
  by (auto split: json.splits if_splits sum.splits prod.splits bool.splits)

lemma report_invariant_scan_executable:
  assumes "scan_executable E rules timeout base_path total_n package executable st = Inr st'"
    and "report_invariant (report st)"
  shows "report_invariant (report st')"
  using assms(1)
proof (cases rule: scan_executable_cases)
  case missing
  then show ?thesis using assms(2) by simp
next
  case clean
  then show ?thesis using assms(2) by (simp add: report_invariant_count_scanned)
next
  case matched
  then show ?thesis using assms(2) by (simp add: report_invariant_add_result)
qed

lemma report_invariant_scan_executables:
  "scan_executables E rules timeout base_path total_n package execs st = Inr st' \<Longrightarrow>
   report_invariant (report st) \<Longrightarrow> report_invariant (report st')"
proof (induction execs arbitrary: st)
  case Nil
  then show ?case by simp
next
  case (Cons x xs)
  then show ?case by (auto split: sum.splits dest: report_invariant_scan_executable)
qed

lemma report_invariant_scan_packages:
  "scan_packages E rules timeout base_path total_n pkgs st = Inr st' \<Longrightarrow>
   report_invariant (report st) \<Longrightarrow> report_invariant (report st')"
proof (induction pkgs arbitrary: st)
  case Nil
  then show ?case by simp
next
  case (Cons x xs)
  then show ?case
    by (auto split: sum.splits json.splits dest: report_invariant_scan_executables)
qed

lemma report_invariant_scan_files_from_json:
  "scan_files_from_json E rules json_path timeout = Inr (err, yr) \<Longrightarrow> report_invariant yr"
  unfolding scan_files_from_json_def
  by (auto split: sum.splits dest!: report_invariant_scan_packages
        simp: report_invariant_empty)

lemma report_invariant_scan_directory_loop:
  "scan_directory_loop E rules timeout dir_path n i files (err, yr) = Inr (err', yr') \<Longrightarrow>
   report_invariant yr \<Longrightarrow> report_invariant yr'"
proof (induction files arbitrary: i err yr)
  case Nil
  then show ?case by simp
next
  case (Cons f fs)
  then show ?case
    by (auto simp: Let_def report_invariant_count_scanned report_invariant_add_result
          split: sum.splits prod.splits if_splits)
qed

lemma report_invariant_scan_directory:
  "scan_directory E rules directory timeout include_patterns = Inr (err, yr) \<Longrightarrow>
   report_invariant yr"
  unfolding scan_directory_def
  by (auto split: sum.splits dest: report_invariant_scan_directory_loop
        simp: report_invariant_empty)

text \<open>
  C1: the report that \<^verbatim>\<open>scan_files_from_json\<close> or \<^verbatim>\<open>scan_directory\<close> returns has
  \<^verbatim>\<open>filesWithMatches\<close> at most \<^verbatim>\<open>totalScanned\<close> and \<^verbatim>\<open>totalMatches\<close> at least
  \<^verbatim>\<open>filesWithMatches\<close>.
\<close>

theorem scan_report_counters:
  "(scan_files_from_json E rules json_path timeout = Inr (err, yr) \<longrightarrow>
      filesWithMatches yr \<le> totalScanned yr \<and> totalMatches yr \<ge> filesWithMatches yr)
   \<and> (scan_directory E rules directory timeout' include_patterns = Inr (err', yr') \<longrightarrow>
      filesWithMatches yr' \<le> totalScanned yr' \<and> totalMatches yr' \<ge> filesWithMatches yr')"
  using report_invariant_scan_files_from_json [of E rules json_path timeout err yr]
    report_invariant_scan_directory [of E rules directory timeout' include_patterns err' yr']
  by (simp add: report_invariant_def)

theorem scan_report_counters_witness:
  "scan_files_from_json sample_env sample_rules ''proj/results.json'' 60 =
     Inr (sample_json_stderr, sample_json_report)
   \<and> filesWithMatches sample_json_report \<le> totalScanned sample_json_report
   \<and> totalMatches sample_json_report \<ge> filesWithMatches sample_json_report
   \<and> scan_directory sample_env sample_rules ''site'' 60 (Some [''*.js'', ''a.*'']) =
     Inr (sample_dir_stderr, sample_dir_report)
   \<and> filesWithMatches sample_dir_report \<le> totalScanned sample_dir_report
   \<and> totalMatches sample_dir_report \<ge> filesWithMatches sample_dir_report"
  using scan_report_counters [of sample_env sample_rules "''proj/results.json''" 60
      sample_json_stderr sample_json_report "''site''" 60 "Some [''*.js'', ''a.*'']"
      sample_dir_stderr sample_dir_report]
    sample_scan_files_from_json sample_scan_directory
  by simp

section \<open>The result records of \<^verbatim>\<open>scan_directory\<close>\<close>

lemma results_add_result [simp]: "results (add_result res yr) = results yr @ [res]"
  by (simp add: add_result_def)

lemma results_count_scanned [simp]: "results (count_scanned yr) = results yr"
  by (simp add: count_scanned_def)

lemma scan_directory_loop_results:
  assumes "scan_directory_loop E rules timeout dir_path n i files (err, yr) = Inr (err', yr')"
  shows "\<exists>new. results yr' = results yr @ new
          \<and> (\<forall>res \<in> set new. \<exists>f \<in> set files. discovered_result E rules timeout dir_path f res)"
  using assms
proof (induction files arbitrary: i err yr)
  case Nil
  then show ?case by simp
next
  case (Cons f fs)
  from Cons.prems obtain warnings matches where
    sf: "scan_file rules f timeout = Inr (warnings, matches)"
    by (auto simp: Let_def split: sum.splits)
  show ?case
  proof (cases "matches = []")
    case True
    with Cons.prems sf obtain err1 where
      "scan_directory_loop E rules timeout dir_path n (i + 1) fs (err1, count_scanned yr)
         = Inr (err', yr')"
      by (auto simp: Let_def)
    from Cons.IH [OF this] show ?thesis by auto
  next
    case False
    with Cons.prems sf obtain relative err1 where
      rel: "path_relative_to E f dir_path = Inr relative"
      and more: "scan_directory_loop E rules timeout dir_path n (i + 1) fs
         (err1, add_result (directory_result relative matches) (count_scanned yr))
         = Inr (err', yr')"
      by (auto simp: Let_def split: sum.splits)
    from Cons.IH [OF more] obtain new where
      n: "results yr' = results yr @ directory_result relative matches # new"
        "\<forall>res \<in> set new. \<exists>f \<in> set fs. discovered_result E rules timeout dir_path f res"
      by auto
    have "discovered_result E rules timeout dir_path f (directory_result relative matches)"
      unfolding discovered_result_def using rel sf False
      by (intro exI [of _ relative] exI [of _ warnings]) simp
    with n show ?thesis
      by (intro exI [of _ "directory_result relative matches # new"]) auto
  qed
qed

lemma scan_directory_results:
  assumes "scan_directory E rules directory timeout include_patterns = Inr (err, yr)"
  shows "\<exists>files. collect_files E directory include_patterns = Inr files
           \<and> (\<forall>res \<in> set (results yr).
                 \<exists>f \<in> set files. discovered_result E rules timeout directory f res)"
proof -
  from assms obtain files where
    c: "collect_files E directory include_patterns = Inr files"
    and l: "scan_directory_loop E rules timeout directory (length files) 0 files
              ([ScanningHeader (length files)], empty_results) = Inr (err, yr)"
    unfolding scan_directory_def by (auto split: sum.splits)
  from scan_directory_loop_results [OF l]
  have "\<forall>res \<in> set (results yr).
          \<exists>f \<in> set files. discovered_result E rules timeout directory f res"
    by (auto simp: empty_results_def)
  with c show ?thesis by blast
qed


text \<open>
  C6: in \<^verbatim>\<open>scan_directory\<close>, a file with at least one match adds to the results the
  record whose only entry besides the matches is \<^verbatim>\<open>'file'\<close>, the path of the file
  relative to the scanned directory; every record of a returned report is such a record
  of one of the collected files, and it has no \<^verbatim>\<open>package\<close>, \<^verbatim>\<open>version\<close>,
  \<^verbatim>\<open>sha256\<close> or \<^verbatim>\<open>type\<close> entry.
\<close>

theorem directory_result_only_relative_path:
  "(scan_file rules file_path timeout = Inr (warnings, matches) \<and> matches \<noteq> []
      \<and> path_relative_to E file_path dir_path = Inr relative \<longrightarrow>
      scan_directory_loop E rules timeout dir_path n i (file_path # rest) (err, yr) =
      scan_directory_loop E rules timeout dir_path n (i + 1) rest
        (err @ (if (i + 1) mod 10 = 0 \<or> i + 1 = n then [Progress (i + 1) n] else [])
           @ warnings @ match_events file_path matches,
         yr\<lparr>totalScanned := totalScanned yr + 1,
            totalMatches := totalMatches yr + length matches,
            filesWithMatches := filesWithMatches yr + 1,
            results := results yr
              @ [\<lparr>r_fields = [(''file'', JStr relative)], r_matches = matches\<rparr>]\<rparr>))
   \<and> (scan_directory E rules directory timeout include_patterns = Inr (err', yr') \<longrightarrow>
       (\<exists>files. collect_files E directory include_patterns = Inr files \<and>
        (\<forall>res \<in> set (results yr').
          \<exists>f \<in> set files.
            \<exists>relative' warnings'.
              path_relative_to E f directory = Inr relative'
              \<and> scan_file rules f timeout = Inr (warnings', r_matches res)
              \<and> r_matches res \<noteq> []
              \<and> r_fields res = [(''file'', JStr relative')]
              \<and> map_of (r_fields res) ''package'' = None
              \<and> map_of (r_fields res) ''version'' = None
              \<and> map_of (r_fields res) ''sha256'' = None
              \<and> map_of (r_fields res) ''type'' = None)))"
proof (intro conjI impI)
  assume "scan_file rules file_path timeout = Inr (warnings, matches) \<and> matches \<noteq> []
      \<and> path_relative_to E file_path dir_path = Inr relative"
  then show "scan_directory_loop E rules timeout dir_path n i (file_path # rest) (err, yr) =
      scan_directory_loop E rules timeout dir_path n (i + 1) rest
        (err @ (if (i + 1) mod 10 = 0 \<or> i + 1 = n then [Progress (i + 1) n] else [])
           @ warnings @ match_events file_path matches,
         yr\<lparr>totalScanned := totalScanned yr + 1,
            totalMatches := totalMatches yr + length matches,
            filesWithMatches := filesWithMatches yr + 1,
            results := results yr
              @ [\<lparr>r_fields = [(''file'', JStr relative)], r_matches = matches\<rparr>]\<rparr>)"
    by (simp add: Let_def add_result_def count_scanned_def directory_result_def)
next
  assume "scan_directory E rules directory timeout include_patterns = Inr (err', yr')"
  from scan_directory_results [OF this] obtain files where
    c: "collect_files E directory include_patterns = Inr files"
    and all: "\<forall>res \<in> set (results yr').
                 \<exists>f \<in> set files. discovered_result E rules timeout directory f res"
    by blast
  have "\<forall>res \<in> set (results yr').
          \<exists>f \<in> set files.
            \<exists>relative' warnings'.
              path_relative_to E f directory = Inr relative'
              \<and> scan_file rules f timeout = Inr (warnings', r_matches res)
              \<and> r_matches res \<noteq> []
              \<and> r_fields res = [(''file'', JStr relative')]
              \<and> map_of (r_fields res) ''package'' = None
              \<and> map_of (r_fields res) ''version'' = None
              \<and> map_of (r_fields res) ''sha256'' = None
              \<and> map_of (r_fields res) ''type'' = None"
  proof
    fix res assume "res \<in> set (results yr')"
    with all obtain f where f: "f \<in> set files"
      and "discovered_result E rules timeout directory f res"
      by blast
    then obtain relative' warnings' where d:
      "path_relative_to E f directory = Inr relative'"
      "scan_file rules f timeout = Inr (warnings', r_matches res)"
      "r_matches res \<noteq> []"
      "res = directory_result relative' (r_matches res)"
      unfolding discovered_result_def by blast
    from d(4) have fields: "r_fields res = [(''file'', JStr relative')]"
      by (metis directory_result_def result.select_convs(1))
    show "\<exists>f \<in> set files.
            \<exists>relative' warnings'.
              path_relative_to E f directory = Inr relative'
              \<and> scan_file rules f timeout = Inr (warnings', r_matches res)
              \<and> r_matches res \<noteq> []
              \<and> r_fields res = [(''file'', JStr relative')]
              \<and> map_of (r_fields res) ''package'' = None
              \<and> map_of (r_fields res) ''version'' = None
              \<and> map_of (r_fields res) ''sha256'' = None
              \<and> map_of (r_fields res) ''type'' = None"
      using f d(1,2,3) fields
      by (intro bexI [of _ f] exI [of _ relative'] exI [of _ warnings']) simp_all
  qed
  with c show "\<exists>files. collect_files E directory include_patterns = Inr files \<and>
        (\<forall>res \<in> set (results yr').
          \<exists>f \<in> set files.
            \<exists>relative' warnings'.
              path_relative_to E f directory = Inr relative'
              \<and> scan_file rules f timeout = Inr (warnings', r_matches res)
              \<and> r_matches res \<noteq> []
              \<and> r_fields res = [(''file'', JStr relative')]
              \<and> map_of (r_fields res) ''package'' = None
              \<and> map_of (r_fields res) ''version'' = None
              \<and> map_of (r_fields res) ''sha256'' = None
              \<and> map_of (r_fields res) ''type'' = None)"
    by blast
qed

theorem directory_result_only_relative_path_witness:
  "scan_file sample_rules ''site/a.js'' 60
     = Inr ([], [match_data_of sample_match, match_data_of numeric_match])
   \<and> [match_data_of sample_match, match_data_of numeric_match] \<noteq> []
   \<and> path_relative_to sample_env ''site/a.js'' ''site'' = Inr ''a.js''
   \<and> scan_directory_loop sample_env sample_rules 60 ''site'' 1 0 [''site/a.js'']
         ([], empty_results)
     = Inr ([Progress 1 1, MatchFound ''site/a.js'' ''Miner'' (MStr ''high''),
             MatchFound ''site/a.js'' ''Packed'' (MInt 3)],
            \<lparr>totalScanned = 1, totalMatches = 2, filesWithMatches = 1,
             results = [\<lparr>r_fields = [(''file'', JStr ''a.js'')],
                         r_matches = [match_data_of sample_match,
                                      match_data_of numeric_match]\<rparr>]\<rparr>)
   \<and> scan_directory sample_env sample_rules ''site'' 60 (Some [''*.js'', ''a.*''])
     = Inr (sample_dir_stderr, sample_dir_report)
   \<and> map r_fields (results sample_dir_report) = [[(''file'', JStr ''a.js'')]]"
proof -
  have s: "scan_file sample_rules ''site/a.js'' 60
     = Inr ([], [match_data_of sample_match, match_data_of numeric_match])"
    by (simp add: scan_file_def sample_rules_def)
  have r: "path_relative_to sample_env ''site/a.js'' ''site'' = Inr ''a.js''"
    by (simp add: sample_env_def startswith_def)
  have m: "match_events ''site/a.js'' [match_data_of sample_match, match_data_of numeric_match]
     = [MatchFound ''site/a.js'' ''Miner'' (MStr ''high''),
             MatchFound ''site/a.js'' ''Packed'' (MInt 3)]"
    by (simp add: match_events_def match_data_of_def sample_match_def numeric_match_def
        severity_of_def dict_get_def)
  have f: "map r_fields (results sample_dir_report) = [[(''file'', JStr ''a.js'')]]"
    by (simp add: sample_dir_report_def)
  show ?thesis
    using directory_result_only_relative_path
      [of sample_rules "''site/a.js''" 60 "[]"
        "[match_data_of sample_match, match_data_of numeric_match]" sample_env "''site''"
        "''a.js''" 1 0 "[]" "[]" empty_results "''site''" "Some [''*.js'', ''a.*'']"
        sample_dir_stderr sample_dir_report]
      s r m f sample_scan_directory
    by (simp add: empty_results_def)
qed

section \<open>The result records of \<^verbatim>\<open>scan_files_from_json\<close>\<close>

lemma scan_executable_results:
  assumes "scan_executable E rules timeout base_path total_n package x st = Inr st'"
  shows "\<exists>new. results (report st') = results (report st) @ new
          \<and> (\<forall>res \<in> set new. \<exists>ex. x = JObj ex
                \<and> entry_result E rules timeout base_path package ex res)"
  using assms
proof (cases rule: scan_executable_cases)
  case (missing ex file_path)
  then show ?thesis by simp
next
  case (clean ex file_path warnings)
  then show ?thesis by simp
next
  case (matched ex file_path warnings matches)
  then have "entry_result E rules timeout base_path package ex
               (manifest_result package ex file_path matches)"
    unfolding entry_result_def by (intro exI [of _ file_path] exI [of _ warnings]) simp
  with matched show ?thesis by simp
qed

lemma scan_executables_results:
  assumes "scan_executables E rules timeout base_path total_n package xs st = Inr st'"
  shows "\<exists>new. results (report st') = results (report st) @ new
          \<and> (\<forall>res \<in> set new. \<exists>ex. JObj ex \<in> set xs
                \<and> entry_result E rules timeout base_path package ex res)"
  using assms
proof (induction xs arbitrary: st)
  case Nil
  then show ?case by simp
next
  case (Cons x xs)
  from Cons.prems obtain st1 where
    one: "scan_executable E rules timeout base_path total_n package x st = Inr st1"
    and more: "scan_executables E rules timeout base_path total_n package xs st1 = Inr st'"
    by (auto split: sum.splits)
  from scan_executable_results [OF one] obtain new1 where
    n1: "results (report st1) = results (report st) @ new1"
      "\<forall>res \<in> set new1. \<exists>ex. x = JObj ex
          \<and> entry_result E rules timeout base_path package ex res"
    by blast
  from Cons.IH [OF more] obtain new2 where
    n2: "results (report st') = results (report st1) @ new2"
      "\<forall>res \<in> set new2. \<exists>ex. JObj ex \<in> set xs
          \<and> entry_result E rules timeout base_path package ex res"
    by blast
  have "results (report st') = results (report st) @ (new1 @ new2)"
    using n1(1) n2(1) by simp
  moreover have "\<forall>res \<in> set (new1 @ new2). \<exists>ex. JObj ex \<in> set (x # xs)
          \<and> entry_result E rules timeout base_path package ex res"
    using n1(2) n2(2) by auto
  ultimately show ?case by blast
qed

lemma scan_packages_results:
  assumes "scan_packages E rules timeout base_path total_n pkgs st = Inr st'"
  shows "\<exists>new. results (report st') = results (report st) @ new
          \<and> (\<forall>res \<in> set new. \<exists>package execs ex. JObj package \<in> set pkgs
                \<and> py_iter (dict_get package ''files'' (JArr [])) = Inr execs
                \<and> JObj ex \<in> set execs
                \<and> entry_result E rules timeout base_path package ex res)"
  using assms
proof (induction pkgs arbitrary: st)
  case Nil
  then show ?case by simp
next
  case (Cons p ps)
  from Cons.prems obtain package execs st1 where
    p: "p = JObj package" "py_iter (dict_get package ''files'' (JArr [])) = Inr execs"
    and one: "scan_executables E rules timeout base_path total_n package execs st = Inr st1"
    and more: "scan_packages E rules timeout base_path total_n ps st1 = Inr st'"
    by (auto split: sum.splits json.splits)
  from scan_executables_results [OF one] obtain new1 where
    n1: "results (report st1) = results (report st) @ new1"
      "\<forall>res \<in> set new1. \<exists>ex. JObj ex \<in> set execs
          \<and> entry_result E rules timeout base_path package ex res"
    by blast
  from Cons.IH [OF more] obtain new2 where
    n2: "results (report st') = results (report st1) @ new2"
      "\<forall>res \<in> set new2. \<exists>package execs ex. JObj package \<in> set ps
                \<and> py_iter (dict_get package ''files'' (JArr [])) = Inr execs
                \<and> JObj ex \<in> set execs
                \<and> entry_result E rules timeout base_path package ex res"
    by blast
  have "results (report st') = results (report st) @ (new1 @ new2)"
    using n1(1) n2(1) by simp
  moreover have "\<forall>res \<in> set (new1 @ new2). \<exists>package execs ex. JObj package \<in> set (p # ps)
                \<and> py_iter (dict_get package ''files'' (JArr [])) = Inr execs
                \<and> JObj ex \<in> set execs
                \<and> entry_result E rules timeout base_path package ex res"
  proof
    fix res assume "res \<in> set (new1 @ new2)"
    then consider "res \<in> set new1" | "res \<in> set new2" by auto
    then show "\<exists>package execs ex. JObj package \<in> set (p # ps)
                \<and> py_iter (dict_get package ''files'' (JArr [])) = Inr execs
                \<and> JObj ex \<in> set execs
                \<and> entry_result E rules timeout base_path package ex res"
    proof cases
      case 1
      with n1(2) p show ?thesis by auto
    next
      case 2
      with n2(2) show ?thesis by (metis list.set_intros(2))
    qed
  qed
  ultimately show ?case by blast
qed

lemma scan_files_from_json_results:
  assumes "scan_files_from_json E rules json_path timeout = Inr (err, yr)"
  shows "\<exists>top pkgs. json_load E json_path = Inr (JObj top)
     \<and> py_iter (dict_get top ''packages'' (JArr [])) = Inr pkgs
     \<and> (\<forall>res \<in> set (results yr). \<exists>package execs ex. JObj package \<in> set pkgs
                \<and> py_iter (dict_get package ''files'' (JArr [])) = Inr execs
                \<and> JObj ex \<in> set execs
                \<and> entry_result E rules timeout (path_parent E json_path) package ex res)"
proof -
  from assms obtain scan_results packages pkgs total_n st where
    a: "json_load E json_path = Inr scan_results"
      "py_get scan_results ''packages'' (JArr []) = Inr packages"
      "py_iter packages = Inr pkgs"
      "scan_packages E rules timeout (path_parent E json_path) total_n pkgs
         \<lparr>report = empty_results, scanned = 0, stderr = [ScanningHeader total_n]\<rparr> = Inr st"
      "yr = report st"
    unfolding scan_files_from_json_def by (auto split: sum.splits)
  from a(2) obtain top where
    t: "scan_results = JObj top" "packages = dict_get top ''packages'' (JArr [])"
    by (cases scan_results) auto
  from scan_packages_results [OF a(4)] a(5)
  have "\<forall>res \<in> set (results yr). \<exists>package execs ex. JObj package \<in> set pkgs
                \<and> py_iter (dict_get package ''files'' (JArr [])) = Inr execs
                \<and> JObj ex \<in> set execs
                \<and> entry_result E rules timeout (path_parent E json_path) package ex res"
    by (auto simp: empty_results_def)
  with a(1,3) t show ?thesis by blast
qed

lemma entry_result_fields:
  assumes "entry_result E rules timeout base_path package ex res"
  shows "\<exists>entry warnings.
           dict_get ex ''file'' (JStr []) = JStr entry
           \<and> path_exists E (full_path_of E base_path entry) = Inr True
           \<and> scan_file rules (full_path_of E base_path entry) timeout
               = Inr (warnings, r_matches res)
           \<and> r_matches res \<noteq> []
           \<and> r_fields res =
               [(''file'', JStr entry),
                (''package'', dict_get package ''package'' (JStr ''unknown'')),
                (''version'', dict_get package ''version'' (JStr ''unknown'')),
                (''sha256'', dict_get ex ''sha256'' (JStr [])),
                (''type'', dict_get ex ''type'' (JStr []))]"
proof -
  from assms obtain entry warnings where e:
    "dict_get ex ''file'' (JStr []) = JStr entry"
    "path_exists E (full_path_of E base_path entry) = Inr True"
    "scan_file rules (full_path_of E base_path entry) timeout = Inr (warnings, r_matches res)"
    "r_matches res \<noteq> []"
    "res = manifest_result package ex entry (r_matches res)"
    unfolding entry_result_def by blast
  from e(5) have "r_fields res = r_fields (manifest_result package ex entry (r_matches res))"
    by simp
  then have "r_fields res =
               [(''file'', JStr entry),
                (''package'', dict_get package ''package'' (JStr ''unknown'')),
                (''version'', dict_get package ''version'' (JStr ''unknown'')),
                (''sha256'', dict_get ex ''sha256'' (JStr [])),
                (''type'', dict_get ex ''type'' (JStr []))]"
    by (simp add: manifest_result_def)
  with e(1-4) show ?thesis by blast
qed

text \<open>
  C7: in \<^verbatim>\<open>scan_files_from_json\<close>, a manifest entry whose file exists and has at least
  one match adds to the results the record with the entry's relative path \<^verbatim>\<open>file\<close>,
  the \<^verbatim>\<open>package\<close> and \<^verbatim>\<open>version\<close> of its package (\<^verbatim>\<open>'unknown'\<close> when the
  manifest has none), the \<^verbatim>\<open>sha256\<close> and \<^verbatim>\<open>type\<close> of the entry (the empty string
  when the manifest has none) and the matches; every record of a returned report is such a
  record of an entry of a package of the manifest.
\<close>

theorem manifest_result_fields:
  "(dict_get ex ''file'' (JStr []) = JStr entry
      \<and> path_exists E (full_path_of E base_path entry) = Inr True
      \<and> scan_file rules (full_path_of E base_path entry) timeout = Inr (warnings, matches)
      \<and> matches \<noteq> [] \<longrightarrow>
    scan_executable E rules timeout base_path total_n package (JObj ex) st =
      Inr \<lparr>report = (report st)
             \<lparr>totalScanned := totalScanned (report st) + 1,
              totalMatches := totalMatches (report st) + length matches,
              filesWithMatches := filesWithMatches (report st) + 1,
              results := results (report st)
                @ [\<lparr>r_fields =
                      [(''file'', JStr entry),
                       (''package'', dict_get package ''package'' (JStr ''unknown'')),
                       (''version'', dict_get package ''version'' (JStr ''unknown'')),
                       (''sha256'', dict_get ex ''sha256'' (JStr [])),
                       (''type'', dict_get ex ''type'' (JStr []))],
                    r_matches = matches\<rparr>]\<rparr>,
           scanned = scanned st + 1,
           stderr = stderr st
             @ (if (scanned st + 1) mod 10 = 0 \<or> scanned st + 1 = total_n
                then [Progress (scanned st + 1) total_n] else [])
             @ warnings @ match_events entry matches\<rparr>)
   \<and> (scan_files_from_json E rules json_path timeout = Inr (err, yr) \<longrightarrow>
       (\<exists>top pkgs. json_load E json_path = Inr (JObj top)
          \<and> py_iter (dict_get top ''packages'' (JArr [])) = Inr pkgs
          \<and> (\<forall>res \<in> set (results yr).
               \<exists>pkg execs ex' entry' warnings'.
                 JObj pkg \<in> set pkgs
                 \<and> py_iter (dict_get pkg ''files'' (JArr [])) = Inr execs
                 \<and> JObj ex' \<in> set execs
                 \<and> dict_get ex' ''file'' (JStr []) = JStr entry'
                 \<and> path_exists E (full_path_of E (path_parent E json_path) entry') = Inr True
                 \<and> scan_file rules (full_path_of E (path_parent E json_path) entry') timeout
                     = Inr (warnings', r_matches res)
                 \<and> r_matches res \<noteq> []
                 \<and> r_fields res =
                     [(''file'', JStr entry'),
                      (''package'', dict_get pkg ''package'' (JStr ''unknown'')),
                      (''version'', dict_get pkg ''version'' (JStr ''unknown'')),
                      (''sha256'', dict_get ex' ''sha256'' (JStr [])),
                      (''type'', dict_get ex' ''type'' (JStr []))])))"
proof (intro conjI impI)
  assume "dict_get ex ''file'' (JStr []) = JStr entry
      \<and> path_exists E (full_path_of E base_path entry) = Inr True
      \<and> scan_file rules (full_path_of E base_path entry) timeout = Inr (warnings, matches)
      \<and> matches \<noteq> []"
  then show "scan_executable E rules timeout base_path total_n package (JObj ex) st =
      Inr \<lparr>report = (report st)
             \<lparr>totalScanned := totalScanned (report st) + 1,
              totalMatches := totalMatches (report st) + length matches,
              filesWithMatches := filesWithMatches (report st) + 1,
              results := results (report st)
                @ [\<lparr>r_fields =
                      [(''file'', JStr entry),
                       (''package'', dict_get package ''package'' (JStr ''unknown'')),
                       (''version'', dict_get package ''version'' (JStr ''unknown'')),
                       (''sha256'', dict_get ex ''sha256'' (JStr [])),
                       (''type'', dict_get ex ''type'' (JStr []))],
                    r_matches = matches\<rparr>]\<rparr>,
           scanned = scanned st + 1,
           stderr = stderr st
             @ (if (scanned st + 1) mod 10 = 0 \<or> scanned st + 1 = total_n
                then [Progress (scanned st + 1) total_n] else [])
             @ warnings @ match_events entry matches\<rparr>"
    by (simp add: scan_executable_def Let_def add_result_def count_scanned_def
        manifest_result_def)
next
  assume "scan_files_from_json E rules json_path timeout = Inr (err, yr)"
  from scan_files_from_json_results [OF this] obtain top pkgs where
    l: "json_load E json_path = Inr (JObj top)"
      "py_iter (dict_get top ''packages'' (JArr [])) = Inr pkgs"
    and all: "\<forall>res \<in> set (results yr). \<exists>package execs ex. JObj package \<in> set pkgs
                \<and> py_iter (dict_get package ''files'' (JArr [])) = Inr execs
                \<and> JObj ex \<in> set execs
                \<and> entry_result E rules timeout (path_parent E json_path) package ex res"
    by blast
  have "\<forall>res \<in> set (results yr).
               \<exists>pkg execs ex' entry' warnings'.
                 JObj pkg \<in> set pkgs
                 \<and> py_iter (dict_get pkg ''files'' (JArr [])) = Inr execs
                 \<and> JObj ex' \<in> set execs
                 \<and> dict_get ex' ''file'' (JStr []) = JStr entry'
                 \<and> path_exists E (full_path_of E (path_parent E json_path) entry') = Inr True
                 \<and> scan_file rules (full_path_of E (path_parent E json_path) entry') timeout
                     = Inr (warnings', r_matches res)
                 \<and> r_matches res \<noteq> []
                 \<and> r_fields res =
                     [(''file'', JStr entry'),
                      (''package'', dict_get pkg ''package'' (JStr ''unknown'')),
                      (''version'', dict_get pkg ''version'' (JStr ''unknown'')),
                      (''sha256'', dict_get ex' ''sha256'' (JStr [])),
                      (''type'', dict_get ex' ''type'' (JStr []))]"
  proof
    fix res assume "res \<in> set (results yr)"
    with all obtain pkg execs ex' where m:
      "JObj pkg \<in> set pkgs" "py_iter (dict_get pkg ''files'' (JArr [])) = Inr execs"
      "JObj ex' \<in> set execs"
      "entry_result E rules timeout (path_parent E json_path) pkg ex' res"
      by blast
    from entry_result_fields [OF m(4)] m(1-3)
    show "\<exists>pkg execs ex' entry' warnings'.
                 JObj pkg \<in> set pkgs
                 \<and> py_iter (dict_get pkg ''files'' (JArr [])) = Inr execs
                 \<and> JObj ex' \<in> set execs
                 \<and> dict_get ex' ''file'' (JStr []) = JStr entry'
                 \<and> path_exists E (full_path_of E (path_parent E json_path) entry') = Inr True
                 \<and> scan_file rules (full_path_of E (path_parent E json_path) entry') timeout
                     = Inr (warnings', r_matches res)
                 \<and> r_matches res \<noteq> []
                 \<and> r_fields res =
                     [(''file'', JStr entry'),
                      (''package'', dict_get pkg ''package'' (JStr ''unknown'')),
                      (''version'', dict_get pkg ''version'' (JStr ''unknown'')),
                      (''sha256'', dict_get ex' ''sha256'' (JStr [])),
                      (''type'', dict_get ex' ''type'' (JStr []))]"
      by blast
  qed
  with l show "\<exists>top pkgs. json_load E json_path = Inr (JObj top)
          \<and> py_iter (dict_get top ''packages'' (JArr [])) = Inr pkgs
          \<and> (\<forall>res \<in> set (results yr).
               \<exists>pkg execs ex' entry' warnings'.
                 JObj pkg \<in> set pkgs
                 \<and> py_iter (dict_get pkg ''files'' (JArr [])) = Inr execs
                 \<and> JObj ex' \<in> set execs
                 \<and> dict_get ex' ''file'' (JStr []) = JStr entry'
                 \<and> path_exists E (full_path_of E (path_parent E json_path) entry') = Inr True
                 \<and> scan_file rules (full_path_of E (path_parent E json_path) entry') timeout
                     = Inr (warnings', r_matches res)
                 \<and> r_matches res \<noteq> []
                 \<and> r_fields res =
                     [(''file'', JStr entry'),
                      (''package'', dict_get pkg ''package'' (JStr ''unknown'')),
                      (''version'', dict_get pkg ''version'' (JStr ''unknown'')),
                      (''sha256'', dict_get ex' ''sha256'' (JStr [])),
                      (''type'', dict_get ex' ''type'' (JStr []))])"
    by blast
qed

theorem manifest_result_fields_witness:
  "dict_get sample_entry ''file'' (JStr []) = JStr ''left-pad/a.node''
   \<and> path_exists sample_env (full_path_of sample_env ''proj'' ''left-pad/a.node'') = Inr True
   \<and> scan_file sample_rules (full_path_of sample_env ''proj'' ''left-pad/a.node'') 60
       = Inr ([], [match_data_of sample_match])
   \<and> [match_data_of sample_match] \<noteq> []
   \<and> scan_executable sample_env sample_rules 60 ''proj'' 3 sample_package (JObj sample_entry)
        \<lparr>report = empty_results, scanned = 0, stderr = []\<rparr>
       = Inr \<lparr>report = sample_json_report\<lparr>totalScanned := 1\<rparr>, scanned = 1,
              stderr = [MatchFound ''left-pad/a.node'' ''Miner'' (MStr ''high'')]\<rparr>
   \<and> scan_files_from_json sample_env sample_rules ''proj/results.json'' 60
       = Inr (sample_json_stderr, sample_json_report)
   \<and> map r_fields (results sample_json_report) =
       [[(''file'', JStr ''left-pad/a.node''), (''package'', JStr ''left-pad''),
         (''version'', JStr ''1.3.0''), (''sha256'', JStr ''9f2c''),
         (''type'', JStr ''ELF'')]]"
proof -
  have p: "full_path_of sample_env ''proj'' ''left-pad/a.node''
             = ''proj/node_modules/left-pad/a.node''"
    by (simp add: full_path_of_def startswith_def sample_env_def)
  have h: "dict_get sample_entry ''file'' (JStr []) = JStr ''left-pad/a.node''
     \<and> path_exists sample_env (full_path_of sample_env ''proj'' ''left-pad/a.node'') = Inr True
     \<and> scan_file sample_rules (full_path_of sample_env ''proj'' ''left-pad/a.node'') 60
         = Inr ([], [match_data_of sample_match])
     \<and> [match_data_of sample_match] \<noteq> []"
    unfolding p
    by (simp add: dict_get_def sample_entry_def sample_env_def scan_file_def sample_rules_def
        sample_paths_def)
  have d: "dict_get sample_package ''package'' (JStr ''unknown'') = JStr ''left-pad''"
    "dict_get sample_package ''version'' (JStr ''unknown'') = JStr ''1.3.0''"
    "dict_get sample_entry ''sha256'' (JStr []) = JStr ''9f2c''"
    "dict_get sample_entry ''type'' (JStr []) = JStr ''ELF''"
    by (simp_all add: dict_get_def sample_package_def sample_entry_def)
  have m: "match_events ''left-pad/a.node'' [match_data_of sample_match]
             = [MatchFound ''left-pad/a.node'' ''Miner'' (MStr ''high'')]"
    by (simp add: match_events_def match_data_of_def sample_match_def severity_of_def
        dict_get_def)
  have f: "map r_fields (results sample_json_report) =
       [[(''file'', JStr ''left-pad/a.node''), (''package'', JStr ''left-pad''),
         (''version'', JStr ''1.3.0''), (''sha256'', JStr ''9f2c''),
         (''type'', JStr ''ELF'')]]"
    by (simp add: sample_json_report_def)
  from manifest_result_fields
      [of sample_entry "''left-pad/a.node''" sample_env "''proj''" sample_rules 60 "[]"
        "[match_data_of sample_match]" 3 sample_package
        "\<lparr>report = empty_results, scanned = 0, stderr = []\<rparr>"] h
  have "scan_executable sample_env sample_rules 60 ''proj'' 3 sample_package (JObj sample_entry)
        \<lparr>report = empty_results, scanned = 0, stderr = []\<rparr>
       = Inr \<lparr>report = sample_json_report\<lparr>totalScanned := 1\<rparr>, scanned = 1,
              stderr = [MatchFound ''left-pad/a.node'' ''Miner'' (MStr ''high'')]\<rparr>"
    by (simp add: d m empty_results_def sample_json_report_def)
  with h f sample_scan_files_from_json show ?thesis by simp
qed

section \<open>Manifest entries whose file is missing\<close>

lemma scan_executable_missing:
  assumes "dict_get ex ''file'' (JStr []) = JStr entry"
    and "path_exists E (full_path_of E base_path entry) = Inr False"
  shows "scan_executable E rules timeout base_path total_n package (JObj ex) st =
         Inr (st\<lparr>stderr := stderr st @ [WarnFileNotFound (full_path_of E base_path entry)]\<rparr>)"
  using assms by (simp add: scan_executable_def Let_def)

lemma scan_executable_exists_raises:
  assumes "dict_get ex ''file'' (JStr []) = JStr entry"
    and "path_exists E (full_path_of E base_path entry) = Inl e"
  shows "scan_executable E rules timeout base_path total_n package (JObj ex) st = Inl e"
  using assms by (simp add: scan_executable_def Let_def)

text \<open>The report and the counter of the progress lines do not depend on what was printed.\<close>

lemma outcome_counts_simps [simp]:
  "outcome_counts (Inl e) = Inl e"
  "outcome_counts (Inr s) = Inr (report s, scanned s)"
  by (simp_all add: outcome_counts_def)

lemma outcome_report_simps [simp]:
  "outcome_report (Inl e) = Inl e"
  "outcome_report (Inr s) = Inr (report s)"
  by (simp_all add: outcome_report_def)

lemma outcome_counts_eq_Inr:
  "outcome_counts a = Inr (report s, scanned s) \<Longrightarrow>
   \<exists>s'. a = Inr s' \<and> report s' = report s \<and> scanned s' = scanned s"
  by (cases a) simp_all

lemma outcome_counts_eq_Inl: "outcome_counts a = Inl e \<Longrightarrow> a = Inl e"
  by (cases a) simp_all

lemma outcome_counts_report:
  "outcome_counts a = outcome_counts b \<Longrightarrow> outcome_report a = outcome_report b"
  by (cases a; cases b) simp_all

lemma scan_executable_counts:
  assumes "report s = report s'" "scanned s = scanned s'"
  shows "outcome_counts (scan_executable E rules timeout base_path total_n package x s) =
         outcome_counts (scan_executable E rules timeout base_path total_n package x s')"
  using assms unfolding scan_executable_def Let_def
  by (auto split: json.splits sum.splits prod.splits)

lemma scan_executables_counts:
  assumes "report s = report s'" "scanned s = scanned s'"
  shows "outcome_counts (scan_executables E rules timeout base_path total_n package xs s) =
         outcome_counts (scan_executables E rules timeout base_path total_n package xs s')"
  using assms
proof (induction xs arbitrary: s s')
  case Nil
  then show ?case by simp
next
  case (Cons x xs)
  note step =
    scan_executable_counts [OF Cons.prems, of E rules timeout base_path total_n package x]
  show ?case
  proof (cases "scan_executable E rules timeout base_path total_n package x s'")
    case (Inl e)
    with step have "scan_executable E rules timeout base_path total_n package x s = Inl e"
      by (simp add: outcome_counts_eq_Inl)
    with Inl show ?thesis by simp
  next
    case (Inr t')
    with step obtain t where
      "scan_executable E rules timeout base_path total_n package x s = Inr t"
      "report t = report t'" "scanned t = scanned t'"
      using outcome_counts_eq_Inr [of _ t'] by auto
    with Inr Cons.IH [of t t'] show ?thesis by simp
  qed
qed

lemma scan_executables_skip:
  assumes "dict_get ex ''file'' (JStr []) = JStr entry"
    and "path_exists E (full_path_of E base_path entry) = Inr False"
  shows "outcome_counts
           (scan_executables E rules timeout base_path total_n package
              (before @ JObj ex # after) st) =
         outcome_counts
           (scan_executables E rules timeout base_path total_n package (before @ after) st)"
proof (induction before arbitrary: st)
  case Nil
  show ?case
    using scan_executable_missing [OF assms, of rules timeout total_n package st]
      scan_executables_counts
        [of "st\<lparr>stderr := stderr st @ [WarnFileNotFound (full_path_of E base_path entry)]\<rparr>"
          st E rules timeout base_path total_n package after]
    by simp
next
  case (Cons x xs)
  then show ?case
    by (cases "scan_executable E rules timeout base_path total_n package x st") simp_all
qed

text \<open>
  C8, amended: a manifest entry for whose resolved path \<^verbatim>\<open>exists()\<close> returns
  \<^verbatim>\<open>False\<close> is skipped with the warning \<^verbatim>\<open>File not found\<close>: the body of the loop
  returns the state with that line added to stderr and nothing else changed (counters and
  results as before), whatever the rules are, since the engine is not called; the loop
  goes on with the remaining entries, and the outcome of the loop (its report, or the
  exception that ends it) is the one it has without the entry. When \<^verbatim>\<open>exists()\<close>
  itself raises, nothing catches the exception: it leaves the body of the loop and the
  loop, and the scan ends.
\<close>

theorem missing_manifest_file_skipped:
  "(dict_get ex ''file'' (JStr []) = JStr entry
      \<and> path_exists E (full_path_of E base_path entry) = Inr False \<longrightarrow>
      scan_executable E rules timeout base_path total_n package (JObj ex) st =
        Inr (st\<lparr>stderr := stderr st
               @ [WarnFileNotFound (full_path_of E base_path entry)]\<rparr>)
      \<and> (\<forall>rules'. scan_executable E rules' timeout base_path total_n package (JObj ex) st =
            scan_executable E rules timeout base_path total_n package (JObj ex) st)
      \<and> scan_executables E rules timeout base_path total_n package (JObj ex # rest) st =
          scan_executables E rules timeout base_path total_n package rest
            (st\<lparr>stderr := stderr st @ [WarnFileNotFound (full_path_of E base_path entry)]\<rparr>)
      \<and> outcome_report
           (scan_executables E rules timeout base_path total_n package
              (before @ JObj ex # after) st0) =
         outcome_report
           (scan_executables E rules timeout base_path total_n package (before @ after) st0))
   \<and> (dict_get ex ''file'' (JStr []) = JStr entry
      \<and> path_exists E (full_path_of E base_path entry) = Inl e \<longrightarrow>
      scan_executable E rules timeout base_path total_n package (JObj ex) st = Inl e
      \<and> scan_executables E rules timeout base_path total_n package (JObj ex # rest) st
          = Inl e)"
proof (intro conjI impI)
  assume a: "dict_get ex ''file'' (JStr []) = JStr entry
      \<and> path_exists E (full_path_of E base_path entry) = Inr False"
  then have f: "dict_get ex ''file'' (JStr []) = JStr entry"
    and m: "path_exists E (full_path_of E base_path entry) = Inr False"
    by simp_all
  note skip = scan_executable_missing [OF f m]
  show "scan_executable E rules timeout base_path total_n package (JObj ex) st =
        Inr (st\<lparr>stderr := stderr st
               @ [WarnFileNotFound (full_path_of E base_path entry)]\<rparr>)"
    by (rule skip)
  show "\<forall>rules'. scan_executable E rules' timeout base_path total_n package (JObj ex) st =
            scan_executable E rules timeout base_path total_n package (JObj ex) st"
    by (simp add: skip)
  show "scan_executables E rules timeout base_path total_n package (JObj ex # rest) st =
          scan_executables E rules timeout base_path total_n package rest
            (st\<lparr>stderr := stderr st @ [WarnFileNotFound (full_path_of E base_path entry)]\<rparr>)"
    by (simp add: skip)
  show "outcome_report
           (scan_executables E rules timeout base_path total_n package
              (before @ JObj ex # after) st0) =
         outcome_report
           (scan_executables E rules timeout base_path total_n package (before @ after) st0)"
    by (rule outcome_counts_report [OF scan_executables_skip [OF f m]])
next
  assume a: "dict_get ex ''file'' (JStr []) = JStr entry
      \<and> path_exists E (full_path_of E base_path entry) = Inl e"
  then have r: "scan_executable E rules timeout base_path total_n package (JObj ex) st = Inl e"
    by (simp add: scan_executable_exists_raises)
  then show "scan_executable E rules timeout base_path total_n package (JObj ex) st = Inl e" .
  from r show "scan_executables E rules timeout base_path total_n package (JObj ex # rest) st
          = Inl e"
    by simp
qed

lemma sample_paths_short: "p \<in> set sample_paths \<Longrightarrow> length p < 255"
  by (auto simp: sample_paths_def)

lemma long_name_path:
  "full_path_of sample_env ''proj'' long_name = ''proj/node_modules/'' @ long_name"
  "length (full_path_of sample_env ''proj'' long_name) = 318"
  "path_exists sample_env (full_path_of sample_env ''proj'' long_name)
     = Inl (OSError ''File name too long'')"
  by (simp_all add: full_path_of_def startswith_def long_name_def sample_env_def)

theorem missing_manifest_file_skipped_witness:
  "dict_get missing_entry ''file'' (JStr []) = JStr ''left-pad/gone.node''
   \<and> path_exists sample_env (full_path_of sample_env ''proj'' ''left-pad/gone.node'')
       = Inr False
   \<and> scan_executable sample_env sample_rules 60 ''proj'' 3 sample_package (JObj missing_entry)
        \<lparr>report = empty_results, scanned = 0, stderr = [ScanningHeader 3]\<rparr>
       = Inr \<lparr>report = empty_results, scanned = 0,
              stderr = [ScanningHeader 3,
                        WarnFileNotFound ''proj/node_modules/left-pad/gone.node'']\<rparr>
   \<and> outcome_report
        (scan_executables sample_env sample_rules 60 ''proj'' 3 sample_package
           [JObj missing_entry, JObj sample_entry]
           \<lparr>report = empty_results, scanned = 0, stderr = []\<rparr>)
       = Inr (sample_json_report\<lparr>totalScanned := 1\<rparr>)
   \<and> outcome_report
        (scan_executables sample_env sample_rules 60 ''proj'' 3 sample_package
           [JObj sample_entry]
           \<lparr>report = empty_results, scanned = 0, stderr = []\<rparr>)
       = Inr (sample_json_report\<lparr>totalScanned := 1\<rparr>)
   \<and> dict_get long_name_entry ''file'' (JStr []) = JStr long_name
   \<and> path_exists sample_env (full_path_of sample_env ''proj'' long_name)
       = Inl (OSError ''File name too long'')
   \<and> scan_executables sample_env sample_rules 60 ''proj'' 2 sample_package
        [JObj long_name_entry, JObj sample_entry]
        \<lparr>report = empty_results, scanned = 0, stderr = []\<rparr>
       = Inl (OSError ''File name too long'')"
proof -
  have p: "full_path_of sample_env ''proj'' ''left-pad/gone.node''
             = ''proj/node_modules/left-pad/gone.node''"
    by (simp add: full_path_of_def startswith_def sample_env_def)
  have h: "dict_get missing_entry ''file'' (JStr []) = JStr ''left-pad/gone.node''"
    "path_exists sample_env (full_path_of sample_env ''proj'' ''left-pad/gone.node'')
       = Inr False"
    unfolding p
    by (simp_all add: dict_get_def missing_entry_def sample_env_def sample_paths_def)
  have l: "dict_get long_name_entry ''file'' (JStr []) = JStr long_name"
    by (simp add: dict_get_def long_name_entry_def)
  have e: "outcome_report
        (scan_executables sample_env sample_rules 60 ''proj'' 3 sample_package
           [JObj sample_entry]
           \<lparr>report = empty_results, scanned = 0, stderr = []\<rparr>)
       = Inr (sample_json_report\<lparr>totalScanned := 1\<rparr>)"
    by (simp add: sample_defs dict_get_def scan_executable_def
      full_path_of_def startswith_def scan_file_def empty_results_def count_scanned_def
      add_result_def manifest_result_def match_events_def severity_of_def match_data_of_def
      sample_match_def sample_json_report_def)
  show ?thesis
    using missing_manifest_file_skipped
      [where ex = missing_entry and entry = "''left-pad/gone.node''" and E = sample_env
        and base_path = "''proj''" and rules = sample_rules and timeout = 60 and total_n = 3
        and package = sample_package
        and st = "\<lparr>report = empty_results, scanned = 0, stderr = [ScanningHeader 3]\<rparr>"
        and rest = "[]" and before = "[]" and after = "[JObj sample_entry]"
        and ?st0.0 = "\<lparr>report = empty_results, scanned = 0, stderr = []\<rparr>"]
      missing_manifest_file_skipped
      [where ex = long_name_entry and entry = long_name and E = sample_env
        and base_path = "''proj''" and rules = sample_rules and timeout = 60 and total_n = 2
        and package = sample_package
        and st = "\<lparr>report = empty_results, scanned = 0, stderr = []\<rparr>"
        and rest = "[JObj sample_entry]" and e = "OSError ''File name too long''"]
      h e l long_name_path(3)
    by (simp add: p)
qed

text \<open>
  Against C8 as it is stated: the manifest \<^verbatim>\<open>proj/long.json\<close> names a file of 300
  characters. No such file exists, \<^verbatim>\<open>exists()\<close> raises for the name, and the scan
  ends with that exception instead of skipping the entry and scanning the next one.
\<close>

theorem missing_manifest_file_skipped_counterexample:
  "json_load sample_env ''proj/long.json'' = Inr long_name_manifest
   \<and> dict_get long_name_entry ''file'' (JStr []) = JStr long_name
   \<and> length long_name = 300
   \<and> full_path_of sample_env ''proj'' long_name \<notin> set sample_paths
   \<and> path_exists sample_env (full_path_of sample_env ''proj'' long_name)
       = Inl (OSError ''File name too long'')
   \<and> scan_files_from_json sample_env sample_rules ''proj/long.json'' 60
       = Inl (OSError ''File name too long'')"
proof -
  have j: "json_load sample_env ''proj/long.json'' = Inr long_name_manifest"
    by (simp add: sample_env_def)
  have l: "dict_get long_name_entry ''file'' (JStr []) = JStr long_name"
    "length long_name = 300"
    by (simp_all add: dict_get_def long_name_entry_def long_name_def)
  have n: "full_path_of sample_env ''proj'' long_name \<notin> set sample_paths"
    using sample_paths_short [of "full_path_of sample_env ''proj'' long_name"]
      long_name_path(2)
    by auto
  have b: "path_parent sample_env ''proj/long.json'' = ''proj''"
    by (simp add: sample_env_def)
  have s: "scan_files_from_json sample_env sample_rules ''proj/long.json'' 60
       = Inl (OSError ''File name too long'')"
    by (simp add: scan_files_from_json_def j long_name_manifest_def dict_get_def b
        scan_executable_exists_raises [OF l(1) long_name_path(3)])
  show ?thesis
    using j l n s long_name_path(3) by simp
qed
section \<open>The files that \<^verbatim>\<open>scan_directory\<close> scans\<close>

lemma first_index_seen: "a \<in> set pre \<Longrightarrow> first_index (pre @ suf) a < length pre"
proof -
  assume a: "a \<in> set pre"
  then have "takeWhile (\<lambda>y. y \<noteq> a) (pre @ suf) = takeWhile (\<lambda>y. y \<noteq> a) pre"
    by (simp add: takeWhile_append1)
  moreover have "takeWhile (\<lambda>y. y \<noteq> a) pre \<noteq> pre"
    using a by (auto simp: takeWhile_eq_all_conv)
  then have "length (takeWhile (\<lambda>y. y \<noteq> a) pre) < length pre"
    using length_takeWhile_le [of "\<lambda>y. y \<noteq> a" pre]
    by (metis le_neq_implies_less takeWhile_eq_take take_all_iff order_refl)
  ultimately show ?thesis by (simp add: first_index_def)
qed

lemma first_index_new: "x \<notin> set pre \<Longrightarrow> first_index (pre @ x # suf) x = length pre"
  by (induction pre) (auto simp: first_index_def)

lemma fromkeys_fold_set:
  "set (fold (\<lambda>x keys. if x \<in> set keys then keys else keys @ [x]) xs acc) = set acc \<union> set xs"
  by (induction xs arbitrary: acc) auto

lemma fromkeys_fold_distinct:
  "distinct acc \<Longrightarrow>
   distinct (fold (\<lambda>x keys. if x \<in> set keys then keys else keys @ [x]) xs acc)"
  by (induction xs arbitrary: acc) auto

lemma fromkeys_fold_order:
  assumes "set acc = set pre"
    and "sorted_wrt (\<lambda>f g. first_index (pre @ suf) f < first_index (pre @ suf) g) acc"
  shows "sorted_wrt (\<lambda>f g. first_index (pre @ suf) f < first_index (pre @ suf) g)
           (fold (\<lambda>x keys. if x \<in> set keys then keys else keys @ [x]) suf acc)"
  using assms
proof (induction suf arbitrary: pre acc)
  case Nil
  then show ?case by simp
next
  case (Cons x suf)
  show ?case
  proof (cases "x \<in> set acc")
    case True
    with Cons.prems Cons.IH [of acc "pre @ [x]"] show ?thesis by auto
  next
    case False
    have "first_index (pre @ x # suf) a < first_index (pre @ x # suf) x" if "a \<in> set acc" for a
      using that False Cons.prems(1) first_index_seen [of a pre "x # suf"]
        first_index_new [of x pre suf]
      by simp
    with Cons.prems have
      "sorted_wrt (\<lambda>f g. first_index (pre @ x # suf) f < first_index (pre @ x # suf) g)
         (acc @ [x])"
      by (simp add: sorted_wrt_append)
    with False Cons.prems(1) Cons.IH [of "acc @ [x]" "pre @ [x]"] show ?thesis by auto
  qed
qed

lemma set_dict_fromkeys: "set (dict_fromkeys xs) = set xs"
  by (simp add: dict_fromkeys_def fromkeys_fold_set)

lemma distinct_dict_fromkeys: "distinct (dict_fromkeys xs)"
  by (simp add: dict_fromkeys_def fromkeys_fold_distinct)

lemma dict_fromkeys_first_occurrence:
  "sorted_wrt (\<lambda>f g. first_index xs f < first_index xs g) (dict_fromkeys xs)"
  using fromkeys_fold_order [of "[]" "[]" xs] by (simp add: dict_fromkeys_def)

lemma totalScanned_count_scanned [simp]: "totalScanned (count_scanned yr) = totalScanned yr + 1"
  by (simp add: count_scanned_def)

lemma totalScanned_add_result [simp]: "totalScanned (add_result res yr) = totalScanned yr"
  by (simp add: add_result_def)

lemma scan_directory_loop_totalScanned:
  "scan_directory_loop E rules timeout dir_path n i files (err, yr) = Inr (err', yr') \<Longrightarrow>
   totalScanned yr' = totalScanned yr + length files"
proof (induction files arbitrary: i err yr)
  case Nil
  then show ?case by simp
next
  case (Cons f fs)
  from Cons.prems obtain err1 yr1 where
    "scan_directory_loop E rules timeout dir_path n (i + 1) fs (err1, yr1) = Inr (err', yr')"
    "totalScanned yr1 = totalScanned yr + 1"
    by (auto simp: Let_def split: sum.splits prod.splits if_splits)
  with Cons.IH [of "i + 1" err1 yr1] show ?case by simp
qed

lemma regular_files_filter:
  "regular_files E xs = Inr fs \<Longrightarrow> fs = filter (\<lambda>f. path_is_file E f = Inr True) xs"
proof (induction xs arbitrary: fs)
  case Nil
  then show ?case by simp
next
  case (Cons x xs)
  from Cons.prems obtain regular kept where
    r: "path_is_file E x = Inr regular" "regular_files E xs = Inr kept"
      "fs = (if regular then x # kept else kept)"
    by (auto split: sum.splits)
  from Cons.IH [OF r(2)] r(1,3) show ?case by auto
qed

lemma rglob_all_concat:
  "rglob_all E dir_path pats = Inr found \<Longrightarrow>
   \<exists>yielded. map (path_rglob E dir_path) pats = map Inr yielded \<and> found = concat yielded"
proof (induction pats arbitrary: found)
  case Nil
  then show ?case by simp
next
  case (Cons pat pats)
  from Cons.prems obtain first others where
    r: "path_rglob E dir_path pat = Inr first" "rglob_all E dir_path pats = Inr others"
      "found = first @ others"
    by (auto split: sum.splits)
  from Cons.IH [OF r(2)] obtain yielded where
    "map (path_rglob E dir_path) pats = map Inr yielded" "others = concat yielded"
    by blast
  with r(1,3) show ?case
    by (intro exI [of _ "first # yielded"]) simp
qed

lemma rglob_all_set:
  "rglob_all E dir_path pats = Inr found \<Longrightarrow>
   set found =
     {f. \<exists>pat \<in> set pats. \<exists>ys. path_rglob E dir_path pat = Inr ys \<and> f \<in> set ys}"
proof (induction pats arbitrary: found)
  case Nil
  then show ?case by simp
next
  case (Cons pat pats)
  from Cons.prems obtain first others where
    r: "path_rglob E dir_path pat = Inr first" "rglob_all E dir_path pats = Inr others"
      "found = first @ others"
    by (auto split: sum.splits)
  from Cons.IH [OF r(2)] r(1,3) show ?case by auto
qed

lemma collect_files_patterns:
  assumes "pats \<noteq> []" and "collect_files E dir_path (Some pats) = Inr files"
  shows "\<exists>found. rglob_all E dir_path pats = Inr found
           \<and> files = filter (\<lambda>f. path_is_file E f = Inr True) (dict_fromkeys found)"
proof -
  from assms obtain found where
    f: "rglob_all E dir_path pats = Inr found"
    and r: "regular_files E (dict_fromkeys found) = Inr files"
    unfolding collect_files_def by (auto split: sum.splits)
  from regular_files_filter [OF r] f show ?thesis by blast
qed

lemma collect_files_regular:
  assumes "collect_files E dir_path include_patterns = Inr files"
  shows "\<forall>f \<in> set files. path_is_file E f = Inr True"
proof -
  from assms obtain listed where "regular_files E listed = Inr files"
    unfolding collect_files_def by (auto split: sum.splits)
  from regular_files_filter [OF this] show ?thesis by simp
qed

text \<open>
  C10: with a non-empty list of include patterns, the list of files that
  \<^verbatim>\<open>scan_directory\<close> scans has no file twice, holds exactly the regular files that some
  pattern yields, and keeps them in the order of their first occurrence in the
  concatenated results of the patterns; whatever the patterns are, every scanned path is a
  regular file; and a scan that returns has scanned as many files as that list holds.
\<close>

theorem collect_files_each_file_once:
  assumes "pats \<noteq> []" and "collect_files E dir_path (Some pats) = Inr files"
  shows "distinct files
    \<and> set files =
        {f. (\<exists>pat \<in> set pats. \<exists>found. path_rglob E dir_path pat = Inr found \<and> f \<in> set found)
            \<and> path_is_file E f = Inr True}
    \<and> (\<exists>yielded. map (path_rglob E dir_path) pats = map Inr yielded
          \<and> sorted_wrt
               (\<lambda>f g. first_index (concat yielded) f < first_index (concat yielded) g) files)
    \<and> (\<forall>fs. collect_files E dir_path include_patterns = Inr fs \<longrightarrow>
          (\<forall>f \<in> set fs. path_is_file E f = Inr True))
    \<and> (scan_directory E rules dir_path timeout (Some pats) = Inr (err, yr) \<longrightarrow>
         totalScanned yr = length files)"
proof (intro conjI impI allI)
  from collect_files_patterns [OF assms] obtain found where
    f: "rglob_all E dir_path pats = Inr found"
    and e: "files = filter (\<lambda>f. path_is_file E f = Inr True) (dict_fromkeys found)"
    by blast
  show "distinct files"
    by (simp add: e distinct_dict_fromkeys)
  show "set files =
        {f. (\<exists>pat \<in> set pats. \<exists>found. path_rglob E dir_path pat = Inr found \<and> f \<in> set found)
            \<and> path_is_file E f = Inr True}"
  proof -
    have "set files = {f \<in> set found. path_is_file E f = Inr True}"
      by (simp add: e set_dict_fromkeys)
    then show ?thesis
      unfolding rglob_all_set [OF f] by blast
  qed
  from rglob_all_concat [OF f] obtain yielded where
    y: "map (path_rglob E dir_path) pats = map Inr yielded" "found = concat yielded"
    by blast
  have "sorted_wrt (\<lambda>f g. first_index (concat yielded) f < first_index (concat yielded) g)
          files"
    unfolding e y(2) by (intro sorted_wrt_filter dict_fromkeys_first_occurrence)
  with y(1) show "\<exists>yielded. map (path_rglob E dir_path) pats = map Inr yielded
          \<and> sorted_wrt
               (\<lambda>f g. first_index (concat yielded) f < first_index (concat yielded) g) files"
    by blast
next
  fix fs assume "collect_files E dir_path include_patterns = Inr fs"
  then show "\<forall>f \<in> set fs. path_is_file E f = Inr True"
    by (rule collect_files_regular)
next
  assume "scan_directory E rules dir_path timeout (Some pats) = Inr (err, yr)"
  with assms(2) have
    "scan_directory_loop E rules timeout dir_path (length files) 0 files
       ([ScanningHeader (length files)], empty_results) = Inr (err, yr)"
    by (simp add: scan_directory_def)
  from scan_directory_loop_totalScanned [OF this]
  show "totalScanned yr = length files"
    by (simp add: empty_results_def)
qed

theorem collect_files_each_file_once_witness:
  "[''*.js'', ''a.*''] \<noteq> []
   \<and> map (path_rglob sample_env ''site'') [''*.js'', ''a.*'']
       = map Inr [[''site/a.js'', ''site/pkg.js'', ''site/b.js''], [''site/a.d'', ''site/a.js'']]
   \<and> path_is_file sample_env ''site/pkg.js'' = Inr False
   \<and> collect_files sample_env ''site'' (Some [''*.js'', ''a.*''])
       = Inr [''site/a.js'', ''site/b.js'']
   \<and> distinct [''site/a.js'', ''site/b.js'']
   \<and> scan_directory sample_env sample_rules ''site'' 60 (Some [''*.js'', ''a.*''])
       = Inr (sample_dir_stderr, sample_dir_report)
   \<and> totalScanned sample_dir_report = 2"
proof -
  have c: "map (path_rglob sample_env ''site'') [''*.js'', ''a.*'']
       = map Inr [[''site/a.js'', ''site/pkg.js'', ''site/b.js''], [''site/a.d'', ''site/a.js'']]"
    "path_is_file sample_env ''site/pkg.js'' = Inr False"
    by (simp_all add: sample_env_def)
  have f: "collect_files sample_env ''site'' (Some [''*.js'', ''a.*''])
             = Inr [''site/a.js'', ''site/b.js'']"
    by (simp add: collect_files_def dict_fromkeys_def sample_env_def)
  have n: "[''*.js'', ''a.*''] \<noteq> []" by simp
  note t = collect_files_each_file_once
      [OF n f, where rules = sample_rules and timeout = 60 and err = sample_dir_stderr
        and yr = sample_dir_report]
  from t have d: "distinct [''site/a.js'', ''site/b.js'']"
    by (rule conjunct1)
  have "scan_directory sample_env sample_rules ''site'' 60 (Some [''*.js'', ''a.*''])
        = Inr (sample_dir_stderr, sample_dir_report) \<longrightarrow>
      totalScanned sample_dir_report = length [''site/a.js'', ''site/b.js'']"
    by (rule conjunct2 [OF conjunct2 [OF conjunct2 [OF conjunct2 [OF t]]]])
  with sample_scan_directory have s: "totalScanned sample_dir_report = 2"
    by simp
  show ?thesis
    using n c f d s sample_scan_directory by simp
qed

section \<open>The level of an annotation\<close>

text \<open>A severity that is a string selects the level, and only the error level is counted.\<close>

lemma annotate_string_severity:
  assumes "severity_of m = MStr s"
  shows "\<exists>a. annotate file_path package m high_severity_count =
           Inr (a, if s = ''critical'' \<or> s = ''high'' then high_severity_count + 1
                   else high_severity_count)
         \<and> a_level a = (if s = ''critical'' \<or> s = ''high'' then AnnError
                         else if s = ''medium'' then AnnWarning else AnnNotice)
         \<and> a_severity a = str_upper s"
  using assms by (simp add: annotate_def annotation_line_def Let_def)

lemma severity_of_missing:
  "map_of (md_meta m) ''severity'' = None \<Longrightarrow> severity_of m = MStr ''unknown''"
  by (simp add: severity_of_def dict_get_def)

text \<open>
  C5: the level of an annotation follows the \<^verbatim>\<open>severity\<close> of the match: error (and
  counted) for \<^verbatim>\<open>critical\<close> and \<^verbatim>\<open>high\<close>, warning for \<^verbatim>\<open>medium\<close>, notice for
  any other or missing severity. That holds for the strings (lemma
  \<open>annotate_string_severity\<close>); a rule whose \<^verbatim>\<open>severity\<close> is the integer 3 is another
  severity, and for it \<^verbatim>\<open>severity.upper()\<close> raises in the branch of the notice: no
  annotation is printed and the exception leaves \<^verbatim>\<open>emit_github_annotations\<close>.
\<close>

theorem emit_github_annotations_integer_severity:
  "severity_of (match_data_of numeric_match) = MInt 3
   \<and> annotate (JStr ''a.js'') (JStr []) (match_data_of numeric_match) 0
       = Inl (AttributeError ''upper'')
   \<and> emit_github_annotations
       \<lparr>totalScanned = 1, totalMatches = 1, filesWithMatches = 1,
        results = [\<lparr>r_fields = [(''file'', JStr ''a.js'')],
                    r_matches = [match_data_of numeric_match]\<rparr>]\<rparr>
       = Inl (AttributeError ''upper'')
   \<and> emit_github_annotations sample_dir_report = Inl (AttributeError ''upper'')"
  by (simp add: emit_github_annotations_def sample_dir_report_def annotate_def
      annotation_line_def severity_of_def dict_get_def match_data_of_def numeric_match_def
      sample_match_def str_upper_def upper_char_def Let_def)

section \<open>The rule files that are compiled\<close>

lemma set_update_subset: "set (AList.update k v al) \<subseteq> insert (k, v) (set al)"
  by (induction al) auto

lemma add_rule_files_keys:
  assumes "\<forall>(namespace, f) \<in> set d. namespace = path_stem E f"
  shows "\<forall>(namespace, f) \<in> set (add_rule_files E files d). namespace = path_stem E f"
  using assms unfolding add_rule_files_def
proof (induction files arbitrary: d)
  case Nil
  then show ?case by simp
next
  case (Cons x xs)
  have "\<forall>(namespace, f) \<in> set (AList.update (path_stem E x) x d). namespace = path_stem E f"
    using Cons.prems set_update_subset [of "path_stem E x" x d] by auto
  from Cons.IH [OF this] show ?case by simp
qed

text \<open>The four ways in which the body of the loop over the rule paths returns.\<close>

lemma load_path_cases:
  assumes "load_path E p (err, d) = Inr (err', d')"
  obtains
    (missing) "path_exists E p = Inr False" "d' = d" "err' = err @ [WarnRulesPathMissing p]"
  | (rule_file) "path_exists E p = Inr True" "path_is_file E p = Inr True"
      "path_suffix E p = ''.yar'' \<or> path_suffix E p = ''.yara''"
      "d' = AList.update (path_stem E p) p d" "err' = err"
  | (directory) regular yar yara where "path_exists E p = Inr True"
      "path_is_file E p = Inr regular"
      "\<not> (regular \<and> (path_suffix E p = ''.yar'' \<or> path_suffix E p = ''.yara''))"
      "path_is_dir E p = Inr True"
      "path_glob E p ''*.yar'' = Inr yar" "path_glob E p ''*.yara'' = Inr yara"
      "d' = add_rule_files E yara (add_rule_files E yar d)" "err' = err"
  | (other) regular where "path_exists E p = Inr True"
      "path_is_file E p = Inr regular"
      "\<not> (regular \<and> (path_suffix E p = ''.yar'' \<or> path_suffix E p = ''.yara''))"
      "path_is_dir E p = Inr False" "d' = d" "err' = err"
proof -
  from assms obtain present where pe: "path_exists E p = Inr present"
    by (cases "path_exists E p") (simp_all add: load_path_def)
  show thesis
  proof (cases present)
    case False
    with assms pe have "d' = d" "err' = err @ [WarnRulesPathMissing p]"
      by (simp_all add: load_path_def)
    with missing pe False show thesis by simp
  next
    case True
    with assms pe obtain regular where pf: "path_is_file E p = Inr regular"
      by (cases "path_is_file E p") (simp_all add: load_path_def)
    show thesis
    proof (cases "regular \<and> (path_suffix E p = ''.yar'' \<or> path_suffix E p = ''.yara'')")
      case yes: True
      have "d' = AList.update (path_stem E p) p d" "err' = err"
        using assms by (simp_all add: load_path_def pe True pf yes)
      with rule_file pe True pf yes show thesis by simp
    next
      case no: False
      from assms obtain is_directory where pd: "path_is_dir E p = Inr is_directory"
        by (cases "path_is_dir E p") (simp_all add: load_path_def pe True pf no)
      show thesis
      proof (cases is_directory)
        case nodir: False
        have "d' = d" "err' = err"
          using assms by (simp_all add: load_path_def pe True pf no pd nodir)
        with other [of regular] pe True pf no pd nodir show thesis by simp
      next
        case dir: True
        from assms obtain yar where g1: "path_glob E p ''*.yar'' = Inr yar"
          by (cases "path_glob E p ''*.yar''") (simp_all add: load_path_def pe True pf no pd dir)
        from assms obtain yara where g2: "path_glob E p ''*.yara'' = Inr yara"
          by (cases "path_glob E p ''*.yara''")
             (simp_all add: load_path_def pe True pf no pd dir g1)
        have "d' = add_rule_files E yara (add_rule_files E yar d)" "err' = err"
          using assms by (simp_all add: load_path_def pe True pf no pd dir g1 g2)
        with directory [of regular yar yara] pe True pf no pd dir g1 g2 show thesis by simp
      qed
    qed
  qed
qed

lemma load_path_keys:
  assumes "load_path E p (err, d) = Inr (err', d')"
    and "\<forall>(namespace, f) \<in> set d. namespace = path_stem E f"
  shows "\<forall>(namespace, f) \<in> set d'. namespace = path_stem E f"
  using assms(1)
proof (cases rule: load_path_cases)
  case missing
  with assms(2) show ?thesis by simp
next
  case rule_file
  with assms(2) set_update_subset [of "path_stem E p" p d] show ?thesis by auto
next
  case (directory regular yar yara)
  have "\<forall>(namespace, f) \<in> set (add_rule_files E yara (add_rule_files E yar d)).
          namespace = path_stem E f"
    by (intro add_rule_files_keys assms(2))
  with directory show ?thesis by simp
next
  case (other regular)
  with assms(2) show ?thesis by simp
qed

lemma load_paths_keys:
  assumes "load_paths E ps (err, d) = Inr (err', d')"
    and "\<forall>(namespace, f) \<in> set d. namespace = path_stem E f"
  shows "\<forall>(namespace, f) \<in> set d'. namespace = path_stem E f"
  using assms
proof (induction ps arbitrary: err d)
  case Nil
  then show ?case by simp
next
  case (Cons p ps)
  from Cons.prems(1) obtain err1 d1 where
    one: "load_path E p (err, d) = Inr (err1, d1)"
    and rest: "load_paths E ps (err1, d1) = Inr (err', d')"
    by (auto split: sum.splits)
  from Cons.IH [OF rest load_path_keys [OF one Cons.prems(2)]] show ?case .
qed

text \<open>
  What a rule path does to the dictionary does not depend on the dictionary: if one
  dictionary is another one with entries \<open>m\<close> underneath, it stays so.
\<close>

lemma add_rule_files_over:
  assumes "map_of da = m ++ map_of db"
  shows "map_of (add_rule_files E files da) = m ++ map_of (add_rule_files E files db)"
  using assms unfolding add_rule_files_def
proof (induction files arbitrary: da db)
  case Nil
  then show ?case by simp
next
  case (Cons x xs)
  have "map_of (AList.update (path_stem E x) x da)
          = m ++ map_of (AList.update (path_stem E x) x db)"
    by (simp add: update_conv' Cons.prems)
  from Cons.IH [OF this] show ?case by simp
qed

lemma load_path_over:
  assumes "load_path E p (ea, da) = Inr (ea', da')"
    and "load_path E p (eb, db) = Inr (eb', db')"
    and "map_of da = m ++ map_of db"
  shows "map_of da' = m ++ map_of db'"
  using assms(1)
proof (cases rule: load_path_cases)
  case missing
  with assms(2,3) show ?thesis by (simp add: load_path_def)
next
  case rule_file
  with assms(2,3) show ?thesis by (auto simp: load_path_def update_conv')
next
  case (directory regular yar yara)
  have "db' = add_rule_files E yara (add_rule_files E yar db)"
    using assms(2) by (simp add: load_path_def directory)
  with directory show ?thesis
    by (simp add: add_rule_files_over [OF add_rule_files_over [OF assms(3)]])
next
  case (other regular)
  have "db' = db"
    using assms(2) by (simp add: load_path_def other)
  with other assms(3) show ?thesis by simp
qed

lemma load_path_returns:
  assumes "load_path E p (ea, da) = Inr (ea', da')"
  shows "\<exists>eb' db'. load_path E p (eb, db) = Inr (eb', db')"
  using assms
proof (cases rule: load_path_cases)
  case missing
  then show ?thesis by (simp add: load_path_def)
next
  case rule_file
  then show ?thesis by (auto simp: load_path_def)
next
  case (directory regular yar yara)
  show ?thesis by (simp add: load_path_def directory)
next
  case (other regular)
  show ?thesis by (simp add: load_path_def other)
qed

lemma load_paths_over:
  assumes "load_paths E ps (ea, da) = Inr (ea', da')"
    and "map_of da = m ++ map_of db"
  shows "\<exists>eb' db'. load_paths E ps (eb, db) = Inr (eb', db') \<and> map_of da' = m ++ map_of db'"
  using assms
proof (induction ps arbitrary: ea da eb db)
  case Nil
  then show ?case by simp
next
  case (Cons p ps)
  from Cons.prems(1) obtain ea1 da1 where
    one: "load_path E p (ea, da) = Inr (ea1, da1)"
    and rest: "load_paths E ps (ea1, da1) = Inr (ea', da')"
    by (auto split: sum.splits)
  from load_path_returns [OF one] obtain eb1 db1 where
    other: "load_path E p (eb, db) = Inr (eb1, db1)"
    by blast
  from load_path_over [OF one other Cons.prems(2)] have "map_of da1 = m ++ map_of db1" .
  from Cons.IH [OF rest this, of eb1] other show ?case by simp
qed

lemma load_paths_append:
  "load_paths E (ps @ qs) st =
     (case load_paths E ps st of Inl e \<Rightarrow> Inl e | Inr st' \<Rightarrow> load_paths E qs st')"
  by (induction ps arbitrary: st) (auto split: sum.splits)

lemma later_rules_win:
  assumes "collect_rule_files E (earlier @ later) = Inr (err, d)"
  shows "\<exists>err' d'. collect_rule_files E later = Inr (err', d')
           \<and> (\<forall>ns \<in> fst ` set d'. map_of d ns = map_of d' ns)"
proof -
  from assms obtain err0 d0 where
    "load_paths E later (err0, d0) = Inr (err, d)"
    unfolding collect_rule_files_def load_paths_append by (auto split: sum.splits)
  from load_paths_over [OF this, of "map_of d0" "[]" "[]"] obtain err' d' where
    l: "load_paths E later ([], []) = Inr (err', d')" "map_of d = map_of d0 ++ map_of d'"
    by auto
  have "map_of d ns = map_of d' ns" if "ns \<in> fst ` set d'" for ns
  proof -
    from that have "ns \<in> dom (map_of d')"
      by (simp add: dom_map_of_conv_image_fst)
    with l(2) show ?thesis by (simp add: map_add_dom_app_simps)
  qed
  with l(1) show ?thesis
    by (auto simp: collect_rule_files_def)
qed

lemma sample_collect_bundled:
  "collect_rule_files sample_env [''/opt/rules''] =
     Inr ([], [(''malware'', ''/opt/rules/malware.yar''),
               (''webshell'', ''/opt/rules/webshell.yar'')])"
  by (simp add: collect_rule_files_def load_path_def add_rule_files_def sample_env_def
      sample_paths_def)

lemma sample_collect_user:
  "collect_rule_files sample_env [''my/malware.yar''] =
     Inr ([], [(''malware'', ''my/malware.yar'')])"
  by (simp add: collect_rule_files_def load_path_def add_rule_files_def sample_env_def
      sample_paths_def)

lemma sample_bundled_exists: "path_exists sample_env (bundled_rules sample_env) = Inr True"
  by (simp add: sample_env_def sample_paths_def)

lemma sample_main_rules_paths:
  "main_rules_paths sample_env sample_args = Inr [''/opt/rules'', ''my/malware.yar'']"
  "main_rules_paths sample_env missing_manifest_args = Inr [''/opt/rules'', ''my/malware.yar'']"
  "main_rules_paths sample_env unwritable_output_args = Inr [''/opt/rules'', ''my/malware.yar'']"
  by (simp_all add: main_rules_paths_def sample_bundled_exists sample_args_def
      missing_manifest_args_def unwritable_output_args_def)
     (simp_all add: sample_env_def)

lemma sample_collect_both:
  "collect_rule_files sample_env [''/opt/rules'', ''my/malware.yar'']
     = Inr ([], sample_rule_files)"
  by (simp add: collect_rule_files_def load_path_def add_rule_files_def sample_env_def
      sample_rule_files_def sample_paths_def)

lemma sample_compile: "yara_compile sample_env sample_rule_files = Inr sample_rules"
  by (simp add: sample_env_def sample_rule_files_def)

lemma sample_load_rules:
  "load_rules sample_env [''/opt/rules'', ''my/malware.yar'']
     = Inr (sample_load_stderr, Some sample_rules)"
  by (simp add: load_rules_def sample_collect_both sample_compile)
     (simp add: sample_rule_files_def sample_load_stderr_def)

text \<open>
  C4: every key of the mapping that \<^verbatim>\<open>load_rules\<close> builds is the stem of the file it
  maps to; a rule file given after other rule paths is what the mapping holds for its stem,
  and in general what later rule paths yield for a namespace replaces what earlier paths
  yielded; \<^verbatim>\<open>main\<close> puts the bundled rule directory before the user's rule paths, so
  for every namespace that the user's paths yield the mapping holds the user's file,
  whatever the bundled directory contains; and that mapping is what is compiled.
\<close>

theorem user_rules_shadow_bundled:
  "(collect_rule_files E rules_paths = Inr (err0, d0) \<longrightarrow>
      (\<forall>(namespace, f) \<in> set d0. namespace = path_stem E f))
   \<and> (path_exists E user_file = Inr True \<and> path_is_file E user_file = Inr True
        \<and> (path_suffix E user_file = ''.yar'' \<or> path_suffix E user_file = ''.yara'')
        \<and> collect_rule_files E (earlier @ [user_file]) = Inr (err1, d1) \<longrightarrow>
       map_of d1 (path_stem E user_file) = Some user_file)
   \<and> (collect_rule_files E (earlier @ later) = Inr (err2, d2) \<longrightarrow>
       (\<exists>err3 d3. collect_rule_files E later = Inr (err3, d3)
          \<and> (\<forall>ns \<in> fst ` set d3. map_of d2 ns = map_of d3 ns)))
   \<and> (\<not> arg_no_bundled_rules a \<and> path_exists E (bundled_rules E) = Inr True \<longrightarrow>
       main_rules_paths E a = Inr (bundled_rules E # arg_rules a))
   \<and> (main_rules_paths E a = Inr paths \<and> collect_rule_files E paths = Inr (err4, d4) \<longrightarrow>
       (\<exists>err5 d5. collect_rule_files E (arg_rules a) = Inr (err5, d5)
          \<and> (\<forall>ns \<in> fst ` set d5. map_of d4 ns = map_of d5 ns)))
   \<and> (load_rules E rules_paths = Inr (err, Some compiled) \<longrightarrow>
       (\<exists>err6 d6. collect_rule_files E rules_paths = Inr (err6, d6)
          \<and> yara_compile E d6 = Inr compiled))"
proof (intro conjI impI)
  assume "collect_rule_files E rules_paths = Inr (err0, d0)"
  then show "\<forall>(namespace, f) \<in> set d0. namespace = path_stem E f"
    unfolding collect_rule_files_def by (rule load_paths_keys) simp
next
  assume u: "path_exists E user_file = Inr True \<and> path_is_file E user_file = Inr True
        \<and> (path_suffix E user_file = ''.yar'' \<or> path_suffix E user_file = ''.yara'')
        \<and> collect_rule_files E (earlier @ [user_file]) = Inr (err1, d1)"
  then have "collect_rule_files E [user_file] = Inr ([], [(path_stem E user_file, user_file)])"
    by (auto simp: collect_rule_files_def load_path_def)
  with later_rules_win [of E earlier "[user_file]" err1 d1] u
  show "map_of d1 (path_stem E user_file) = Some user_file"
    by auto
next
  assume "collect_rule_files E (earlier @ later) = Inr (err2, d2)"
  then show "\<exists>err3 d3. collect_rule_files E later = Inr (err3, d3)
          \<and> (\<forall>ns \<in> fst ` set d3. map_of d2 ns = map_of d3 ns)"
    by (rule later_rules_win)
next
  assume "\<not> arg_no_bundled_rules a \<and> path_exists E (bundled_rules E) = Inr True"
  then show "main_rules_paths E a = Inr (bundled_rules E # arg_rules a)"
    by (simp add: main_rules_paths_def)
next
  assume p: "main_rules_paths E a = Inr paths \<and> collect_rule_files E paths = Inr (err4, d4)"
  then consider "paths = [bundled_rules E] @ arg_rules a" | "paths = [] @ arg_rules a"
    by (auto simp: main_rules_paths_def split: if_splits sum.splits)
  then show "\<exists>err5 d5. collect_rule_files E (arg_rules a) = Inr (err5, d5)
          \<and> (\<forall>ns \<in> fst ` set d5. map_of d4 ns = map_of d5 ns)"
  proof cases
    case 1
    with p have "collect_rule_files E ([bundled_rules E] @ arg_rules a) = Inr (err4, d4)"
      by simp
    then show ?thesis by (rule later_rules_win)
  next
    case 2
    with p have "collect_rule_files E ([] @ arg_rules a) = Inr (err4, d4)"
      by simp
    then show ?thesis by (rule later_rules_win)
  qed
next
  assume "load_rules E rules_paths = Inr (err, Some compiled)"
  then show "\<exists>err6 d6. collect_rule_files E rules_paths = Inr (err6, d6)
          \<and> yara_compile E d6 = Inr compiled"
    unfolding load_rules_def
    by (auto split: prod.splits if_splits sum.splits exc.splits)
qed

theorem user_rules_shadow_bundled_witness:
  "collect_rule_files sample_env [''/opt/rules''] =
     Inr ([], [(''malware'', ''/opt/rules/malware.yar''),
               (''webshell'', ''/opt/rules/webshell.yar'')])
   \<and> path_exists sample_env ''my/malware.yar'' = Inr True
   \<and> path_is_file sample_env ''my/malware.yar'' = Inr True
   \<and> path_suffix sample_env ''my/malware.yar'' = ''.yar''
   \<and> path_stem sample_env ''my/malware.yar'' = ''malware''
   \<and> collect_rule_files sample_env (arg_rules sample_args)
       = Inr ([], [(''malware'', ''my/malware.yar'')])
   \<and> \<not> arg_no_bundled_rules sample_args
   \<and> path_exists sample_env (bundled_rules sample_env) = Inr True
   \<and> main_rules_paths sample_env sample_args = Inr [''/opt/rules'', ''my/malware.yar'']
   \<and> collect_rule_files sample_env [''/opt/rules'', ''my/malware.yar'']
       = Inr ([], sample_rule_files)
   \<and> map_of sample_rule_files ''malware'' = Some ''my/malware.yar''
   \<and> load_rules sample_env [''/opt/rules'', ''my/malware.yar'']
        = Inr (sample_load_stderr, Some sample_rules)
   \<and> yara_compile sample_env sample_rule_files = Inr sample_rules"
proof -
  have u: "arg_rules sample_args = [''my/malware.yar'']"
    "\<not> arg_no_bundled_rules sample_args"
    by (simp_all add: sample_args_def)
  have e: "path_exists sample_env ''my/malware.yar'' = Inr True"
    "path_is_file sample_env ''my/malware.yar'' = Inr True"
    "path_suffix sample_env ''my/malware.yar'' = ''.yar''"
    "path_stem sample_env ''my/malware.yar'' = ''malware''"
    "bundled_rules sample_env = ''/opt/rules''"
    by (simp_all add: sample_env_def sample_paths_def)
  note t = user_rules_shadow_bundled
      [where E = sample_env and rules_paths = "[''/opt/rules'', ''my/malware.yar'']"
        and ?err0.0 = "[]" and ?d0.0 = sample_rule_files
        and user_file = "''my/malware.yar''" and earlier = "[''/opt/rules'']"
        and ?err1.0 = "[]" and ?d1.0 = sample_rule_files
        and later = "[''my/malware.yar'']" and ?err2.0 = "[]" and ?d2.0 = sample_rule_files
        and a = sample_args and paths = "[''/opt/rules'', ''my/malware.yar'']"
        and ?err4.0 = "[]" and ?d4.0 = sample_rule_files
        and err = sample_load_stderr and compiled = sample_rules]
  have "map_of sample_rule_files (path_stem sample_env ''my/malware.yar'') = Some ''my/malware.yar''"
    using conjunct1 [OF conjunct2 [OF t]] e sample_collect_both by simp
  then show ?thesis
    using u e sample_collect_bundled sample_collect_user sample_collect_both
      sample_bundled_exists sample_main_rules_paths(1) sample_load_rules sample_compile
    by simp
qed
section \<open>The exit status of \<^verbatim>\<open>main\<close>\<close>































end
